theory Spec2Isabelle
  imports Complex_Main
begin

section \<open>Keep Starting Gear: the snapshot restorer\<close>

text \<open>
  A shallow embedding of \<^verbatim>\<open>src/Models.ts\<close>, \<^verbatim>\<open>src/Constants.ts\<close> and
  \<^verbatim>\<open>src/SnapshotRestorer.ts\<close>.

  Conventions of the embedding.
  \<^item> An optional property (\<^verbatim>\<open>p?: T\<close>) is an \<open>option\<close>; \<open>None\<close> is JavaScript's
    \<^verbatim>\<open>undefined\<close>. A truthiness test on a string (\<^verbatim>\<open>if (s)\<close>, \<^verbatim>\<open>!s\<close>) is false for
    \<^verbatim>\<open>undefined\<close> and for the empty string; \<open>truthy\<close> below is that test.
  \<^item> For \<^verbatim>\<open>parentId\<close> and \<^verbatim>\<open>slotId\<close>, \<open>None\<close> is the property that is missing. A
    property that is JSON \<^verbatim>\<open>null\<close> has no value of its own here: the code treats it as a
    missing one in every truthiness test and in every comparison with a string. The two
    differ only in the comparison \<^verbatim>\<open>parentId === equipmentId\<close> of \<^verbatim>\<open>buildSlotSets\<close> and
    \<^verbatim>\<open>traceRootSlot\<close> when the equipment id is \<^verbatim>\<open>undefined\<close>: it holds for a missing
    \<^verbatim>\<open>parentId\<close> and not for \<^verbatim>\<open>null\<close>. Statements about a snapshot without an equipment
    container are therefore statements about records whose \<^verbatim>\<open>parentId\<close> is missing or a
    string.
  \<^item> The sub-fields of \<^verbatim>\<open>upd\<close> are three-valued (\<open>field\<close>): the snapshot producer of
    this repository serialises with \<^verbatim>\<open>NullValueHandling.Include\<close>, so an unset sub-object
    arrives as JSON \<^verbatim>\<open>null\<close>, which is \<^verbatim>\<open>!== undefined\<close>.
  \<^item> A JavaScript object may carry properties its interface does not declare. For
    \<^verbatim>\<open>ItemUpd\<close> these are kept in the field \<open>Other\<close>.
  \<^item> \<^verbatim>\<open>Set<string>\<close> is a \<open>string set\<close>, \<^verbatim>\<open>Map<string, T>\<close> a map \<open>string \<rightharpoonup> T\<close>.
  \<^item> Numbers that the code only copies are \<open>real\<close>; counters and depths are \<open>nat\<close>;
    the results of \<^verbatim>\<open>parseInt\<close> are \<open>int option\<close> with \<open>None\<close> for \<^verbatim>\<open>NaN\<close>.
  \<^item> Strings are ASCII strings: \<^verbatim>\<open>toLowerCase\<close>, \<^verbatim>\<open>trim\<close> and \<^verbatim>\<open>parseInt\<close> are
    modelled on ASCII, and the characters beyond ASCII that JavaScript lower-cases or
    counts as white space (U+00A0, U+FEFF and others) are outside the model. The value
    of \<^verbatim>\<open>parseInt\<close> is the exact integer, not its rounding to a double; the code only
    compares these values with each other and with 1.
  \<^item> An array is a list of any length: the argument limit of the engine, above which
    \<^verbatim>\<open>push(...backup)\<close> throws a \<^verbatim>\<open>RangeError\<close>, is not modelled.
  \<^item> A thrown exception is the left injection of a sum; a logger call appends to a list
    of entries that the function returns. Messages are recorded by level and fixed text,
    without the interpolated values. \<^verbatim>\<open>logDebug\<close> (output only under
    \<^verbatim>\<open>verboseLogging\<close>) is not recorded.
\<close>

subsection \<open>Data model (Models.ts)\<close>

type_synonym number = real

datatype 'a field = Absent | JsNull | Present 'a

datatype json =
    JNull
  | JBool bool
  | JNum number
  | JStr string
  | JArr "json list"
  | JObj "(string \<times> json) list"

record UpdFoldable =
  Folded :: bool

record UpdMedKit =
  HpResource :: number

record UpdRepairable =
  Durability :: number
  MaxDurability :: number

record UpdResource =
  Value :: number

record UpdFoodDrink =
  HpPercent :: number

record UpdTag =
  Name :: string
  Color :: number

record UpdDogtag =
  AccountId :: "string option"
  ProfileId :: "string option"
  Nickname :: "string option"
  Side :: "string option"
  Level :: "number option"
  Time :: "string option"
  Status :: "string option"
  KillerAccountId :: "string option"
  KillerProfileId :: "string option"
  KillerName :: "string option"
  WeaponName :: "string option"

record UpdKey =
  NumberOfUsages :: number

record UpdLight =
  IsActive :: bool
  SelectedMode :: number

record UpdTogglable =
  On :: bool

text \<open>The property \<^verbatim>\<open>FireMode\<close> of \<^verbatim>\<open>UpdFireMode\<close> is \<open>FireModeName\<close> here, since
  \<open>FireMode\<close> is the field of \<open>ItemUpd\<close>.\<close>

record UpdFireMode =
  FireModeName :: string

record UpdSight =
  ScopesCurrentCalibPointIndexes :: "number list"
  ScopesSelectedModes :: "number list"
  SelectedScope :: number

record ItemUpd =
  StackObjectsCount :: "number field"
  SpawnedInSession :: "bool field"
  Foldable :: "UpdFoldable field"
  MedKit :: "UpdMedKit field"
  Repairable :: "UpdRepairable field"
  Resource :: "UpdResource field"
  FoodDrink :: "UpdFoodDrink field"
  Tag :: "UpdTag field"
  Dogtag :: "UpdDogtag field"
  Key :: "UpdKey field"
  Light :: "UpdLight field"
  Togglable :: "UpdTogglable field"
  FireMode :: "UpdFireMode field"
  Sight :: "UpdSight field"
  Other :: "(string \<times> json) list"

record ItemLocation =
  loc_x :: number
  loc_y :: number
  loc_r :: number
  isSearched :: "bool option"

datatype location = CartridgeIndex number | GridLocation ItemLocation

text \<open>\<^verbatim>\<open>SnapshotItem\<close> and \<^verbatim>\<open>ProfileItem\<close> declare the same properties, and the code casts
  one to the other; \<open>item_id\<close> is \<^verbatim>\<open>_id\<close> and \<open>item_tpl\<close> is \<^verbatim>\<open>_tpl\<close>.\<close>

record Item =
  item_id :: string
  item_tpl :: string
  parentId :: "string option"
  slotId :: "string option"
  location :: "location option"
  upd :: "ItemUpd option"

type_synonym SnapshotItem = Item
type_synonym ProfileItem = Item

record InventorySnapshot =
  items :: "SnapshotItem list"
  includedSlots :: "string list option"
  emptySlots :: "string list option"
  modVersion :: "string option"

text \<open>A thrown JavaScript error, by its message.\<close>

datatype exn = JsError string

text \<open>The error message of a failed result, by the template that produced it.\<close>

datatype validation_error =
    NullOrNotObject
  | ItemsNotArray
  | SnapshotEmpty
  | ItemNotObject nat
  | ItemInvalidId nat
  | ItemInvalidTpl nat

datatype failure =
    InvalidSessionIdFormat
  | RateLimitExceeded
  | InventoryNotArray
  | InvalidSnapshotPath
  | NoSnapshotFileFound
  | SnapshotFileTooLarge nat nat
  | CouldNotReadFileStats
  | FailedToReadAfterRetries
  | JsonParseError string
  | ValidationFailed validation_error
  | VersionIncompatible
  | NoEquipmentInProfile
  | RolledBack string
  | UnexpectedError string

record RestoreResult =
  success :: bool
  itemsAdded :: nat
  duplicatesSkipped :: nat
  nonManagedSkipped :: nat
  errorMessage :: "failure option"

definition succeeded :: "nat \<Rightarrow> nat \<Rightarrow> nat \<Rightarrow> RestoreResult" where
  "succeeded added duplicates nonManaged =
     \<lparr>success = True, itemsAdded = added, duplicatesSkipped = duplicates,
      nonManagedSkipped = nonManaged, errorMessage = None\<rparr>"

definition failed :: "failure \<Rightarrow> RestoreResult" where
  "failed msg =
     \<lparr>success = False, itemsAdded = 0, duplicatesSkipped = 0,
      nonManagedSkipped = 0, errorMessage = Some msg\<rparr>"

subsection \<open>Constants and configuration (Constants.ts)\<close>

record ModConfig =
  maxParentTraversalDepth :: nat
  maxFileReadRetries :: nat
  fileReadRetryDelayMs :: nat
  maxSnapshotFileSizeBytes :: nat
  verboseLogging :: bool
  minRestoreIntervalMs :: int

definition MOD_VERSION :: string where
  "MOD_VERSION = ''1.1.0''"

definition EQUIPMENT_TEMPLATE_ID :: string where
  "EQUIPMENT_TEMPLATE_ID = ''55d7217a4bdc2d86028b456d''"

definition DEFAULT_CONFIG :: ModConfig where
  "DEFAULT_CONFIG =
     \<lparr>maxParentTraversalDepth = 20, maxFileReadRetries = 5, fileReadRetryDelayMs = 150,
      maxSnapshotFileSizeBytes = 10 * 1024 * 1024, verboseLogging = False,
      minRestoreIntervalMs = 1000\<rparr>"

subsection \<open>Logging\<close>

datatype log_level = LogInfo | LogWarning | LogError

type_synonym log_entry = "log_level \<times> string"

subsection \<open>Strings\<close>

definition truthy :: "string option \<Rightarrow> bool" where
  "truthy s = (case s of None \<Rightarrow> False | Some v \<Rightarrow> v \<noteq> [])"

definition upperLetters :: "(char \<times> char) list" where
  "upperLetters = zip ''ABCDEFGHIJKLMNOPQRSTUVWXYZ'' ''abcdefghijklmnopqrstuvwxyz''"

definition toLowerChar :: "char \<Rightarrow> char" where
  "toLowerChar c = (case map_of upperLetters c of Some l \<Rightarrow> l | None \<Rightarrow> c)"

definition toLowerCase :: "string \<Rightarrow> string" where
  "toLowerCase s = map toLowerChar s"

definition isWhiteSpace :: "char \<Rightarrow> bool" where
  "isWhiteSpace c = (c \<in> set [CHR 0x09, CHR 0x0A, CHR 0x0B, CHR 0x0C, CHR 0x0D, CHR '' ''])"

definition digits :: "(char \<times> int) list" where
  "digits = zip ''0123456789'' [0, 1, 2, 3, 4, 5, 6, 7, 8, 9]"

definition isDigit :: "char \<Rightarrow> bool" where
  "isDigit c = (map_of digits c \<noteq> None)"

definition digitValue :: "char \<Rightarrow> int" where
  "digitValue c = (case map_of digits c of Some d \<Rightarrow> d | None \<Rightarrow> 0)"

text \<open>\<^verbatim>\<open>String.prototype.split(".")\<close>: the pieces between the separators, at least one.\<close>

fun splitOn :: "char \<Rightarrow> string \<Rightarrow> string \<Rightarrow> string list" where
  "splitOn d acc [] = [rev acc]"
| "splitOn d acc (c # cs) =
     (if c = d then rev acc # splitOn d [] cs else splitOn d (c # acc) cs)"

definition split :: "char \<Rightarrow> string \<Rightarrow> string list" where
  "split d s = splitOn d [] s"

text \<open>\<^verbatim>\<open>parseInt(s, 10)\<close>: leading white space is skipped, one sign is read, then the
  longest run of decimal digits; no digit gives \<^verbatim>\<open>NaN\<close>.\<close>

definition parseDigits :: "string \<Rightarrow> int option" where
  "parseDigits s =
     (let ds = takeWhile isDigit s
      in if ds = [] then None else Some (foldl (\<lambda>acc c. 10 * acc + digitValue c) 0 ds))"

definition parseInt :: "string \<Rightarrow> int option" where
  "parseInt s =
     (case dropWhile isWhiteSpace s of
        [] \<Rightarrow> None
      | c # cs \<Rightarrow>
          if c = CHR ''-'' then map_option uminus (parseDigits cs)
          else if c = CHR ''+'' then parseDigits cs
          else parseDigits (c # cs))"

subsection \<open>Version validation (SnapshotRestorer.ts)\<close>

record version =
  major :: int
  minor :: int
  patch :: int

definition parseVersion :: "string option \<Rightarrow> version option" where
  "parseVersion v =
     (if \<not> truthy v then None
      else
        let parts = split (CHR ''.'') (the v)
        in if length parts < 2 then None
           else
             let major = parseInt (parts ! 0);
                 minor = parseInt (parts ! 1);
                 patch = (if length parts \<ge> 3 then parseInt (parts ! 2) else Some 0)
             in if major = None \<or> minor = None then None
                else Some \<lparr>major = the major, minor = the minor,
                           patch = (case patch of None \<Rightarrow> 0 | Some p \<Rightarrow> p)\<rparr>)"

definition validateSnapshotVersion :: "InventorySnapshot \<Rightarrow> bool \<times> log_entry list" where
  "validateSnapshotVersion snapshot =
     (let currentVersion = MOD_VERSION
      in case parseVersion (Some currentVersion) of
           None \<Rightarrow> (True, [(LogWarning, ''Could not parse current mod version'')])
         | Some currentParts \<Rightarrow>
             if \<not> truthy (modVersion snapshot)
             then (False, [(LogWarning, ''Snapshot has no version info (legacy format)''),
                           (LogWarning, ''This snapshot may have incompatible structure and will be skipped.'')])
             else
               (case parseVersion (modVersion snapshot) of
                  None \<Rightarrow> (True, [(LogWarning, ''Could not parse snapshot version'')])
                | Some snapParts \<Rightarrow>
                    if major snapParts \<noteq> major currentParts
                    then (False, [(LogWarning, ''Major version mismatch'')])
                    else if minor snapParts > minor currentParts
                    then (True, [(LogWarning, ''Snapshot is from newer version''),
                                 (LogWarning, ''Please update the mod to ensure compatibility.'')])
                    else (True, [])))"

subsection \<open>Exceptions\<close>

definition bindE :: "'e + 'a \<Rightarrow> ('a \<Rightarrow> 'e + 'b) \<Rightarrow> 'e + 'b" where
  "bindE m f = (case m of Inl e \<Rightarrow> Inl e | Inr v \<Rightarrow> f v)"

subsection \<open>Deep clone of the update data (Models.ts)\<close>

text \<open>
  \<^verbatim>\<open>if (upd.P !== undefined) clone.P = { F: upd.P.F }\<close>: nothing is set for an absent
  sub-object, reading a property of \<^verbatim>\<open>null\<close> throws a \<^verbatim>\<open>TypeError\<close>, and a sub-object is
  rebuilt from the properties its interface declares. The sub-objects are records of
  their declared properties, so a property inside a sub-object that its interface does
  not declare, which the code drops as well, has no representation.
\<close>

definition cloneSubObject :: "string \<Rightarrow> 'a field \<Rightarrow> exn + 'a field" where
  "cloneSubObject prop f =
     (case f of
        Absent \<Rightarrow> Inr Absent
      | JsNull \<Rightarrow>
          Inl (JsError (''Cannot read properties of null (reading '' @ [CHR 0x27] @ prop @
                        [CHR 0x27] @ '')''))
      | Present v \<Rightarrow> Inr (Present v))"

definition emptyDogtag :: UpdDogtag where
  "emptyDogtag =
     \<lparr>AccountId = None, ProfileId = None, Nickname = None, Side = None, Level = None,
      Time = None, Status = None, KillerAccountId = None, KillerProfileId = None,
      KillerName = None, WeaponName = None\<rparr>"

text \<open>\<^verbatim>\<open>{ ...upd.Dogtag }\<close>: spreading \<^verbatim>\<open>null\<close> gives the empty object.\<close>

definition spreadDogtag :: "UpdDogtag field \<Rightarrow> UpdDogtag field" where
  "spreadDogtag f =
     (case f of Absent \<Rightarrow> Absent | JsNull \<Rightarrow> Present emptyDogtag | Present d \<Rightarrow> Present d)"

text \<open>The clone is built from the fourteen listed properties; any other property of
  \<^verbatim>\<open>upd\<close> is not copied, so \<open>Other\<close> of the clone is empty.\<close>

definition deepCloneItemUpd :: "ItemUpd option \<Rightarrow> exn + ItemUpd option" where
  "deepCloneItemUpd u =
     (case u of
        None \<Rightarrow> Inr None
      | Some src \<Rightarrow>
          bindE (cloneSubObject ''Folded'' (Foldable src)) (\<lambda>cFoldable.
          bindE (cloneSubObject ''HpResource'' (MedKit src)) (\<lambda>cMedKit.
          bindE (cloneSubObject ''Durability'' (Repairable src)) (\<lambda>cRepairable.
          bindE (cloneSubObject ''Value'' (Resource src)) (\<lambda>cResource.
          bindE (cloneSubObject ''HpPercent'' (FoodDrink src)) (\<lambda>cFoodDrink.
          bindE (cloneSubObject ''Name'' (Tag src)) (\<lambda>cTag.
          bindE (cloneSubObject ''NumberOfUsages'' (Key src)) (\<lambda>cKey.
          bindE (cloneSubObject ''IsActive'' (Light src)) (\<lambda>cLight.
          bindE (cloneSubObject ''On'' (Togglable src)) (\<lambda>cTogglable.
          bindE (cloneSubObject ''FireMode'' (FireMode src)) (\<lambda>cFireMode.
          bindE (cloneSubObject ''ScopesCurrentCalibPointIndexes'' (Sight src)) (\<lambda>cSight.
          Inr (Some
            \<lparr>StackObjectsCount = StackObjectsCount src,
             SpawnedInSession = SpawnedInSession src,
             Foldable = cFoldable,
             MedKit = cMedKit,
             Repairable = cRepairable,
             Resource = cResource,
             FoodDrink = cFoodDrink,
             Tag = cTag,
             Dogtag = spreadDogtag (Dogtag src),
             Key = cKey,
             Light = cLight,
             Togglable = cTogglable,
             FireMode = cFireMode,
             Sight = cSight,
             Other = []\<rparr>)))))))))))))"

subsection \<open>Equipment container and slot sets (SnapshotRestorer.ts)\<close>

fun findEquipmentId :: "Item list \<Rightarrow> string option" where
  "findEquipmentId [] = None"
| "findEquipmentId (item # rest) =
     (if item_tpl item = EQUIPMENT_TEMPLATE_ID then Some (item_id item)
      else findEquipmentId rest)"

record slot_sets =
  includedSet :: "string set"
  snapshotSet :: "string set"
  emptySet :: "string set"

definition lowerSet :: "string list option \<Rightarrow> string set" where
  "lowerSet l = (case l of None \<Rightarrow> {} | Some xs \<Rightarrow> set (map toLowerCase xs))"

definition buildSlotSets :: "InventorySnapshot \<Rightarrow> string option \<Rightarrow> slot_sets" where
  "buildSlotSets snapshot snapshotEquipmentId =
     \<lparr>includedSet = lowerSet (includedSlots snapshot),
      snapshotSet =
        set (map (\<lambda>item. toLowerCase (the (slotId item)))
              (filter (\<lambda>item. parentId item = snapshotEquipmentId \<and> truthy (slotId item))
                 (items snapshot))),
      emptySet = lowerSet (emptySlots snapshot)\<rparr>"

definition isSlotManaged :: "string \<Rightarrow> string set \<Rightarrow> string set \<Rightarrow> string set \<Rightarrow> bool" where
  "isSlotManaged slot included snapshotSlots emptySlotSet =
     (let slotLower = toLowerCase slot
      in if included \<noteq> {} then slotLower \<in> included
         else slotLower \<in> snapshotSlots \<or> slotLower \<in> emptySlotSet)"

subsection \<open>Item lookup and parent traversal\<close>

definition buildItemLookup :: "Item list \<Rightarrow> (string \<rightharpoonup> Item)" where
  "buildItemLookup its =
     foldl (\<lambda>lookup item. if item_id item \<noteq> [] then lookup(item_id item \<mapsto> item) else lookup)
       Map.empty its"

definition cycleWarning :: log_entry where
  "cycleWarning = (LogWarning, ''Cycle detected in parent chain'')"

definition depthWarning :: log_entry where
  "depthWarning = (LogWarning, ''Max traversal depth reached. Possible corrupt item hierarchy.'')"

text \<open>The code after the \<^verbatim>\<open>while\<close> loop of \<^verbatim>\<open>traceRootSlot\<close>.\<close>

definition traceExit :: "nat \<Rightarrow> nat \<Rightarrow> string option \<times> log_entry list" where
  "traceExit maxDepth depth = (None, if depth \<ge> maxDepth then [depthWarning] else [])"

text \<open>The \<^verbatim>\<open>while (current && depth < maxParentTraversalDepth)\<close> loop, from the state
  (\<open>current\<close>, \<open>depth\<close>, \<open>visited\<close>). The test \<^verbatim>\<open>current.parentId === equipmentId\<close> is
  equality of options: a missing \<^verbatim>\<open>parentId\<close> equals an \<^verbatim>\<open>undefined\<close> equipment id.\<close>

function traceLoop ::
  "nat \<Rightarrow> string option \<Rightarrow> (string \<rightharpoonup> Item) \<Rightarrow> Item option \<Rightarrow> nat \<Rightarrow> string set
     \<Rightarrow> string option \<times> log_entry list" where
  "traceLoop maxDepth equipmentId itemLookup current depth visited =
     (case current of
        None \<Rightarrow> traceExit maxDepth depth
      | Some cur \<Rightarrow>
          if \<not> depth < maxDepth then traceExit maxDepth depth
          else if item_id cur \<noteq> [] \<and> item_id cur \<in> visited then (None, [cycleWarning])
          else if parentId cur = equipmentId then (slotId cur, [])
          else if \<not> truthy (parentId cur) then traceExit maxDepth depth
          else traceLoop maxDepth equipmentId itemLookup
                 (itemLookup (the (parentId cur))) (depth + 1)
                 (if item_id cur \<noteq> [] then insert (item_id cur) visited else visited))"
  by pat_completeness auto
termination
  by (relation "measure (\<lambda>(maxDepth, equipmentId, itemLookup, current, depth, visited).
        maxDepth - depth)") auto

definition traceRootSlot ::
  "ModConfig \<Rightarrow> Item \<Rightarrow> string option \<Rightarrow> (string \<rightharpoonup> Item) \<Rightarrow> string option \<times> log_entry list" where
  "traceRootSlot config item equipmentId itemLookup =
     traceLoop (maxParentTraversalDepth config) equipmentId itemLookup (Some item) 0 {}"

fun buildRootSlotLoop ::
  "ModConfig \<Rightarrow> string option \<Rightarrow> (string \<rightharpoonup> Item) \<Rightarrow> Item list \<Rightarrow> (string \<rightharpoonup> string)
     \<Rightarrow> (string \<rightharpoonup> string) \<times> log_entry list" where
  "buildRootSlotLoop config snapshotEquipmentId itemLookup [] slotMap = (slotMap, [])"
| "buildRootSlotLoop config snapshotEquipmentId itemLookup (item # rest) slotMap =
     (if item_id item = [] then
        buildRootSlotLoop config snapshotEquipmentId itemLookup rest slotMap
      else
        let (rootSlot, warnings) = traceRootSlot config item snapshotEquipmentId itemLookup;
            slotMap' = (if truthy rootSlot
                        then slotMap(item_id item \<mapsto> toLowerCase (the rootSlot))
                        else slotMap);
            (result, moreWarnings) =
              buildRootSlotLoop config snapshotEquipmentId itemLookup rest slotMap'
        in (result, warnings @ moreWarnings))"

definition buildRootSlotMap ::
  "ModConfig \<Rightarrow> Item list \<Rightarrow> string option \<Rightarrow> (string \<rightharpoonup> Item)
     \<Rightarrow> (string \<rightharpoonup> string) \<times> log_entry list" where
  "buildRootSlotMap config its snapshotEquipmentId itemLookup =
     buildRootSlotLoop config snapshotEquipmentId itemLookup its Map.empty"

subsection \<open>Item removal\<close>

text \<open>\<^verbatim>\<open>item.slotId || ""\<close>\<close>

definition slotOrEmpty :: "Item \<Rightarrow> string" where
  "slotOrEmpty item = (case slotId item of None \<Rightarrow> [] | Some s \<Rightarrow> s)"

text \<open>The first loop of \<^verbatim>\<open>removeManagedSlotItems\<close>: the ids of the direct children of
  the equipment container that sit in a managed slot.\<close>

definition directChildren ::
  "string \<Rightarrow> string set \<Rightarrow> string set \<Rightarrow> string set \<Rightarrow> Item list \<Rightarrow> string set" where
  "directChildren profileEquipmentId included snapshotSlots emptySlotSet its =
     foldl (\<lambda>itemsToRemove item.
              if parentId item \<noteq> Some profileEquipmentId then itemsToRemove
              else if \<not> isSlotManaged (slotOrEmpty item) included snapshotSlots emptySlotSet
              then itemsToRemove
              else insert (item_id item) itemsToRemove)
       {} its"

text \<open>One run of the inner \<^verbatim>\<open>for\<close> loop, which starts with \<^verbatim>\<open>foundMore = false\<close>.\<close>

definition nestedStep :: "string set \<times> bool \<Rightarrow> Item \<Rightarrow> string set \<times> bool" where
  "nestedStep acc item =
     (case acc of (itemsToRemove, foundMore) \<Rightarrow>
        if truthy (parentId item) \<and> the (parentId item) \<in> itemsToRemove
           \<and> item_id item \<notin> itemsToRemove
        then (insert (item_id item) itemsToRemove, True)
        else (itemsToRemove, foundMore))"

definition nestedPass :: "Item list \<Rightarrow> string set \<Rightarrow> string set \<times> bool" where
  "nestedPass its itemsToRemove = foldl nestedStep (itemsToRemove, False) its"

text \<open>\<^verbatim>\<open>while (foundMore && iterations < maxParentTraversalDepth)\<close>\<close>

function nestedLoop ::
  "nat \<Rightarrow> Item list \<Rightarrow> string set \<Rightarrow> bool \<Rightarrow> nat \<Rightarrow> string set \<times> nat" where
  "nestedLoop maxDepth its itemsToRemove foundMore iterations =
     (if foundMore \<and> iterations < maxDepth
      then nestedLoop maxDepth its (fst (nestedPass its itemsToRemove))
             (snd (nestedPass its itemsToRemove)) (iterations + 1)
      else (itemsToRemove, iterations))"
  by pat_completeness auto
termination
  by (relation "measure (\<lambda>(maxDepth, its, itemsToRemove, foundMore, iterations).
        maxDepth - iterations)") auto

text \<open>The in-place compaction: \<^verbatim>\<open>items[writeIndex] = items[readIndex]\<close> for every
  record that stays; the result is the array and the final \<^verbatim>\<open>writeIndex\<close>.\<close>

function compactLoop :: "string set \<Rightarrow> Item list \<Rightarrow> nat \<Rightarrow> nat \<Rightarrow> Item list \<times> nat" where
  "compactLoop itemsToRemove arr readIndex writeIndex =
     (if readIndex < length arr
      then if item_id (arr ! readIndex) \<notin> itemsToRemove
           then compactLoop itemsToRemove (arr[writeIndex := arr ! readIndex])
                  (readIndex + 1) (writeIndex + 1)
           else compactLoop itemsToRemove arr (readIndex + 1) writeIndex
      else (arr, writeIndex))"
  by pat_completeness auto
termination
  by (relation "measure (\<lambda>(itemsToRemove, arr, readIndex, writeIndex).
        length arr - readIndex)") auto

definition iterationWarning :: log_entry where
  "iterationWarning =
     (LogWarning, ''Max iterations reached while finding nested items. Possible corrupt item hierarchy.'')"

text \<open>The set of ids that \<^verbatim>\<open>removeManagedSlotItems\<close> has collected when its
  \<^verbatim>\<open>while\<close> loop ends, and the number of iterations made.\<close>

definition removalSet ::
  "ModConfig \<Rightarrow> Item list \<Rightarrow> string \<Rightarrow> string set \<Rightarrow> string set \<Rightarrow> string set
     \<Rightarrow> string set \<times> nat" where
  "removalSet config its profileEquipmentId included snapshotSlots emptySlotSet =
     nestedLoop (maxParentTraversalDepth config) its
       (directChildren profileEquipmentId included snapshotSlots emptySlotSet its) True 0"

text \<open>The result is the array after the call (\<^verbatim>\<open>items.length = writeIndex\<close>), the
  returned count and the warnings.\<close>

definition removeManagedSlotItems ::
  "ModConfig \<Rightarrow> Item list \<Rightarrow> string \<Rightarrow> string set \<Rightarrow> string set \<Rightarrow> string set
     \<Rightarrow> Item list \<times> nat \<times> log_entry list" where
  "removeManagedSlotItems config its profileEquipmentId included snapshotSlots emptySlotSet =
     (let (itemsToRemove, iterations) =
            removalSet config its profileEquipmentId included snapshotSlots emptySlotSet;
          warnings = (if iterations \<ge> maxParentTraversalDepth config
                      then [iterationWarning] else []);
          originalLength = length its;
          (arr, writeIndex) = compactLoop itemsToRemove its 0 0;
          remaining = take writeIndex arr
      in (remaining, originalLength - length remaining, warnings))"

subsection \<open>Item addition\<close>

definition copyLocation :: "location option \<Rightarrow> location option" where
  "copyLocation l =
     (case l of
        None \<Rightarrow> None
      | Some (CartridgeIndex n) \<Rightarrow> Some (CartridgeIndex n)
      | Some (GridLocation g) \<Rightarrow>
          Some (GridLocation \<lparr>loc_x = loc_x g, loc_y = loc_y g, loc_r = loc_r g,
                              isSearched = isSearched g\<rparr>))"

definition createItemFromSnapshot :: "Item \<Rightarrow> string \<Rightarrow> string option \<Rightarrow> exn + Item" where
  "createItemFromSnapshot snapshotItem profileEquipmentId snapshotEquipmentId =
     bindE (deepCloneItemUpd (upd snapshotItem)) (\<lambda>clonedUpd.
       Inr \<lparr>item_id = item_id snapshotItem,
            item_tpl = item_tpl snapshotItem,
            parentId =
              (if truthy snapshotEquipmentId \<and> parentId snapshotItem = snapshotEquipmentId
               then Some profileEquipmentId
               else parentId snapshotItem),
            slotId = slotId snapshotItem,
            location = copyLocation (location snapshotItem),
            upd = clonedUpd\<rparr>)"

text \<open>The variables of \<^verbatim>\<open>addSnapshotItems\<close> that its loop changes: the inventory array
  and the set of existing ids (both mutated in place), the three counters, and the
  warnings logged.\<close>

record add_state =
  inventoryItems :: "Item list"
  existingItemIds :: "string set"
  added :: nat
  duplicates :: nat
  nonManaged :: nat
  addWarnings :: "log_entry list"

definition missingFieldWarning :: log_entry where
  "missingFieldWarning = (LogWarning, ''Skipping item with missing _id or _tpl'')"

text \<open>The body of the \<^verbatim>\<open>for\<close> loop of \<^verbatim>\<open>addSnapshotItems\<close>, for one snapshot item.\<close>

definition addSnapshotItem ::
  "string \<Rightarrow> string option \<Rightarrow> string set \<Rightarrow> (string \<rightharpoonup> string) \<Rightarrow> Item \<Rightarrow> add_state
     \<Rightarrow> exn + add_state" where
  "addSnapshotItem profileEquipmentId snapshotEquipmentId included itemRootSlots snapshotItem st =
     (if item_tpl snapshotItem = EQUIPMENT_TEMPLATE_ID then Inr st
      else if item_id snapshotItem = [] \<or> item_tpl snapshotItem = []
      then Inr (st\<lparr>addWarnings := addWarnings st @ [missingFieldWarning]\<rparr>)
      else
        let rootSlot = itemRootSlots (item_id snapshotItem)
        in if truthy rootSlot \<and> included \<noteq> {} \<and> the rootSlot \<notin> included
           then Inr (st\<lparr>nonManaged := nonManaged st + 1\<rparr>)
           else if item_id snapshotItem \<in> existingItemIds st
           then Inr (st\<lparr>duplicates := duplicates st + 1\<rparr>)
           else
             bindE (createItemFromSnapshot snapshotItem profileEquipmentId snapshotEquipmentId)
               (\<lambda>newItem.
                  Inr (st\<lparr>inventoryItems := inventoryItems st @ [newItem],
                          existingItemIds := insert (item_id newItem) (existingItemIds st),
                          added := added st + 1\<rparr>)))"

text \<open>The loop; an exception leaves it with the state reached so far.\<close>

fun addLoop ::
  "string \<Rightarrow> string option \<Rightarrow> string set \<Rightarrow> (string \<rightharpoonup> string) \<Rightarrow> Item list \<Rightarrow> add_state
     \<Rightarrow> (exn \<times> add_state) + add_state" where
  "addLoop profileEquipmentId snapshotEquipmentId included itemRootSlots [] st = Inr st"
| "addLoop profileEquipmentId snapshotEquipmentId included itemRootSlots (snapshotItem # rest) st =
     (case addSnapshotItem profileEquipmentId snapshotEquipmentId included itemRootSlots
             snapshotItem st of
        Inl e \<Rightarrow> Inl (e, st)
      | Inr st' \<Rightarrow>
          addLoop profileEquipmentId snapshotEquipmentId included itemRootSlots rest st')"

definition addSnapshotItems ::
  "Item list \<Rightarrow> Item list \<Rightarrow> string \<Rightarrow> string option \<Rightarrow> string set \<Rightarrow> (string \<rightharpoonup> string)
     \<Rightarrow> string set \<Rightarrow> (exn \<times> add_state) + add_state" where
  "addSnapshotItems inventory snapshotItems profileEquipmentId snapshotEquipmentId included
     itemRootSlots existingIds =
     addLoop profileEquipmentId snapshotEquipmentId included itemRootSlots snapshotItems
       \<lparr>inventoryItems = inventory, existingItemIds = existingIds, added = 0, duplicates = 0,
        nonManaged = 0, addWarnings = []\<rparr>"

text \<open>\<^verbatim>\<open>restoreFromFile\<close>, lines 350 to 356: the ids present after the removal.\<close>

definition buildExistingItemIds :: "Item list \<Rightarrow> string set" where
  "buildExistingItemIds its =
     foldl (\<lambda>existing item. if item_id item \<noteq> [] then insert (item_id item) existing else existing)
       {} its"

subsection \<open>Backup and rollback\<close>

fun createInventoryBackup :: "Item list \<Rightarrow> exn + Item list" where
  "createInventoryBackup [] = Inr []"
| "createInventoryBackup (item # rest) =
     bindE (deepCloneItemUpd (upd item)) (\<lambda>clonedUpd.
     bindE (createInventoryBackup rest) (\<lambda>copies.
       Inr (\<lparr>item_id = item_id item,
             item_tpl = item_tpl item,
             parentId = parentId item,
             slotId = slotId item,
             location = copyLocation (location item),
             upd = clonedUpd\<rparr> # copies)))"

text \<open>\<^verbatim>\<open>items.length = 0; items.push(...backup)\<close>: the array now holds the backup (the
  backup is taken to be within the argument limit of the engine).\<close>

definition restoreFromBackup :: "Item list \<Rightarrow> Item list \<Rightarrow> Item list \<times> log_entry list" where
  "restoreFromBackup its backup =
     ([] @ backup, [(LogInfo, ''Inventory rolled back to pre-restoration state'')])"

subsection \<open>Validation of untrusted input (Models.ts)\<close>

definition safeChars :: string where
  "safeChars = ''abcdefghijklmnopqrstuvwxyzABCDEFGHIJKLMNOPQRSTUVWXYZ0123456789_-''"

fun includesSub :: "string \<Rightarrow> string \<Rightarrow> bool" where
  "includesSub [] sub = (sub = [])"
| "includesSub (c # cs) sub = (take (length sub) (c # cs) = sub \<or> includesSub cs sub)"

definition isValidSessionId :: "string \<Rightarrow> bool" where
  "isValidSessionId sessionId =
     (if length sessionId = 0 then False
      else if \<not> list_all (\<lambda>c. c \<in> set safeChars) sessionId then False
      else if includesSub sessionId ''..'' \<or> includesSub sessionId ''/''
              \<or> includesSub sessionId [CHR 0x5C] \<or> includesSub sessionId [CHR 0x00] then False
      else if length sessionId > 128 then False
      else True)"

text \<open>
  The value that \<^verbatim>\<open>JSON.parse\<close> returns has the type \<^verbatim>\<open>unknown\<close> for
  \<^verbatim>\<open>validateSnapshot\<close>. The shapes that function tells apart are kept: a value that is
  \<^verbatim>\<open>null\<close> or not an object, an \<^verbatim>\<open>items\<close> property that is not an array (\<open>None\<close>), and
  an element that is \<^verbatim>\<open>null\<close> or not an object. In an element that is an object, an
  \<^verbatim>\<open>_id\<close> or \<^verbatim>\<open>_tpl\<close> that is missing or not a string is represented by the empty
  string, which the validation refuses like them.
\<close>

datatype unknown_item = NotAnObject | ObjectItem Item

datatype unknown_snapshot =
    NotASnapshotObject
  | SnapshotObject "unknown_item list option" "string list option" "string list option"
      "string option"

fun validateItems :: "nat \<Rightarrow> unknown_item list \<Rightarrow> validation_error option" where
  "validateItems i [] = None"
| "validateItems i (NotAnObject # rest) = Some (ItemNotObject i)"
| "validateItems i (ObjectItem item # rest) =
     (if item_id item = [] then Some (ItemInvalidId i)
      else if item_tpl item = [] then Some (ItemInvalidTpl i)
      else validateItems (i + 1) rest)"

text \<open>\<open>None\<close> is \<^verbatim>\<open>{ valid: true }\<close>; \<open>Some e\<close> is \<^verbatim>\<open>{ valid: false, error: e }\<close>.\<close>

fun validateSnapshot :: "unknown_snapshot \<Rightarrow> validation_error option" where
  "validateSnapshot NotASnapshotObject = Some NullOrNotObject"
| "validateSnapshot (SnapshotObject None inc emp ver) = Some ItemsNotArray"
| "validateSnapshot (SnapshotObject (Some []) inc emp ver) = Some SnapshotEmpty"
| "validateSnapshot (SnapshotObject (Some (e # es)) inc emp ver) = validateItems 0 (e # es)"

text \<open>The cast of the validated value to \<^verbatim>\<open>InventorySnapshot\<close>.\<close>

fun objectItems :: "unknown_item list \<Rightarrow> Item list" where
  "objectItems [] = []"
| "objectItems (NotAnObject # rest) = objectItems rest"
| "objectItems (ObjectItem item # rest) = item # objectItems rest"

fun asInventorySnapshot :: "unknown_snapshot \<Rightarrow> InventorySnapshot" where
  "asInventorySnapshot NotASnapshotObject =
     \<lparr>items = [], includedSlots = None, emptySlots = None, modVersion = None\<rparr>"
| "asInventorySnapshot (SnapshotObject its inc emp ver) =
     \<lparr>items = (case its of None \<Rightarrow> [] | Some es \<Rightarrow> objectItems es),
      includedSlots = inc, emptySlots = emp, modVersion = ver\<rparr>"

subsection \<open>Rate limiting\<close>

record RateLimitEntry =
  lastAttempt :: int
  attemptCount :: nat

definition checkRateLimit ::
  "ModConfig \<Rightarrow> int \<Rightarrow> (string \<rightharpoonup> RateLimitEntry) \<Rightarrow> string
     \<Rightarrow> bool \<times> (string \<rightharpoonup> RateLimitEntry)" where
  "checkRateLimit config now rateLimits sessionId =
     (case rateLimits sessionId of
        None \<Rightarrow> (True, rateLimits(sessionId \<mapsto> \<lparr>lastAttempt = now, attemptCount = 1\<rparr>))
      | Some entry \<Rightarrow>
          if now - lastAttempt entry < minRestoreIntervalMs config
          then (False, rateLimits(sessionId \<mapsto> entry\<lparr>attemptCount := attemptCount entry + 1\<rparr>))
          else (True, rateLimits(sessionId \<mapsto> \<lparr>lastAttempt = now, attemptCount = 1\<rparr>)))"

subsection \<open>The file system and the clock\<close>

text \<open>
  What the outside world answers during one call of \<^verbatim>\<open>tryRestore\<close>: the clock
  (\<^verbatim>\<open>Date.now()\<close>), whether the resolved snapshot path starts with the resolved snapshots
  directory, the size \<^verbatim>\<open>fs.statSync\<close> reports (\<open>None\<close> when it throws), the outcome of the
  \<open>n\<close>-th \<^verbatim>\<open>fs.readFileSync\<close>, what \<^verbatim>\<open>JSON.parse\<close> makes of a content, and the error of
  \<^verbatim>\<open>fs.unlinkSync\<close> when it throws. The delay between two read attempts only passes time
  and is left out.
\<close>

record io =
  clock :: int
  pathInsideSnapshots :: bool
  statSize :: "nat option"
  readFile :: "nat \<Rightarrow> exn + string"
  jsonParse :: "string \<Rightarrow> exn + unknown_snapshot"
  unlinkError :: "exn option"

text \<open>What one restorer and its snapshot file are, between calls: the rate limit map,
  whether the snapshot file of the session exists, how often \<^verbatim>\<open>fs.unlinkSync\<close> was called,
  and the log.\<close>

record world =
  rateLimitMap :: "string \<rightharpoonup> RateLimitEntry"
  snapshotFileExists :: bool
  unlinkCalls :: nat
  logged :: "log_entry list"

definition logTo :: "log_entry list \<Rightarrow> world \<Rightarrow> world" where
  "logTo entries w = w\<lparr>logged := logged w @ entries\<rparr>"

definition checkFileSize :: "ModConfig \<Rightarrow> io \<Rightarrow> failure option" where
  "checkFileSize config env =
     (case statSize env of
        None \<Rightarrow> Some CouldNotReadFileStats
      | Some fileSize \<Rightarrow>
          if fileSize > maxSnapshotFileSizeBytes config
          then Some (SnapshotFileTooLarge fileSize (maxSnapshotFileSizeBytes config))
          else None)"

definition startsWithBracket :: "string \<Rightarrow> bool" where
  "startsWithBracket content =
     (case dropWhile isWhiteSpace content of
        [] \<Rightarrow> False
      | c # cs \<Rightarrow> c = CHR 0x7B \<or> c = CHR 0x5B)"

text \<open>The \<^verbatim>\<open>for\<close> loop of \<^verbatim>\<open>readSnapshotWithRetry\<close> from attempt \<open>attempt\<close>; \<open>None\<close> is the
  \<^verbatim>\<open>null\<close> returned when the loop runs out.\<close>

function readLoop :: "ModConfig \<Rightarrow> io \<Rightarrow> nat \<Rightarrow> string option" where
  "readLoop config env attempt =
     (if attempt < maxFileReadRetries config
      then (case readFile env attempt of
              Inl e \<Rightarrow> readLoop config env (attempt + 1)
            | Inr content \<Rightarrow>
                if length content = 0 then readLoop config env (attempt + 1)
                else if \<not> startsWithBracket content then readLoop config env (attempt + 1)
                else Some content)
      else None)"
  by pat_completeness auto
termination
  by (relation "measure (\<lambda>(config, env, attempt). maxFileReadRetries config - attempt)") auto

definition readSnapshotWithRetry :: "ModConfig \<Rightarrow> io \<Rightarrow> string option \<times> log_entry list" where
  "readSnapshotWithRetry config env =
     (case readLoop config env 0 of
        Some content \<Rightarrow> (Some content, [])
      | None \<Rightarrow> (None, [(LogError, ''Failed to read snapshot after retries'')]))"

text \<open>\<^verbatim>\<open>deleteSnapshotFile\<close>: the unlink is tried when the file exists, and an error of
  the unlink is caught and logged.\<close>

definition deleteSnapshotFile :: "io \<Rightarrow> world \<Rightarrow> world" where
  "deleteSnapshotFile env w =
     (if snapshotFileExists w
      then (case unlinkError env of
              None \<Rightarrow> w\<lparr>snapshotFileExists := False, unlinkCalls := unlinkCalls w + 1\<rparr>
            | Some e \<Rightarrow>
                logTo [(LogWarning, ''Failed to delete snapshot file'')]
                  (w\<lparr>unlinkCalls := unlinkCalls w + 1\<rparr>))
      else w)"

subsection \<open>Core restoration logic\<close>

definition message :: "exn \<Rightarrow> string" where
  "message e = (case e of JsError m \<Rightarrow> m)"

text \<open>
  \<^verbatim>\<open>restoreFromFile\<close>. The result is what the function returns or throws, the inventory
  array after it, and the world after it. The part from the backup on is
  \<open>applySnapshot\<close>: an exception of \<^verbatim>\<open>createInventoryBackup\<close> leaves the function (it is
  outside the inner \<^verbatim>\<open>try\<close>), an exception of the addition is caught and rolled back.
\<close>

definition applySnapshot ::
  "ModConfig \<Rightarrow> io \<Rightarrow> world \<Rightarrow> Item list \<Rightarrow> InventorySnapshot \<Rightarrow> string \<Rightarrow> string option
     \<Rightarrow> (exn + RestoreResult) \<times> Item list \<times> world" where
  "applySnapshot config env w inventory snapshot profileEquipmentId snapshotEquipmentId =
     (let slots = buildSlotSets snapshot snapshotEquipmentId;
          snapshotItemLookup = buildItemLookup (items snapshot);
          (itemRootSlots, traceWarnings) =
            buildRootSlotMap config (items snapshot) snapshotEquipmentId snapshotItemLookup;
          w1 = logTo traceWarnings w
      in case createInventoryBackup inventory of
           Inl e \<Rightarrow> (Inl e, inventory, w1)
         | Inr backupItems \<Rightarrow>
             let (remaining, removedCount, removeWarnings) =
                   removeManagedSlotItems config inventory profileEquipmentId
                     (includedSet slots) (snapshotSet slots) (emptySet slots);
                 w2 = logTo removeWarnings w1;
                 existingIds = buildExistingItemIds remaining
             in (case addSnapshotItems remaining (items snapshot) profileEquipmentId
                       snapshotEquipmentId (includedSet slots) itemRootSlots existingIds of
                  Inr st \<Rightarrow>
                    (Inr (succeeded (added st) (duplicates st) (nonManaged st)),
                     inventoryItems st,
                     deleteSnapshotFile env (logTo (addWarnings st) w2))
                | Inl (e, st) \<Rightarrow>
                    let w3 = logTo (addWarnings st
                               @ [(LogError, ''Error during restoration, rolling back...'')]) w2;
                        (restored, rollbackLog) = restoreFromBackup (inventoryItems st) backupItems
                    in (Inr (failed (RolledBack (message e))), restored, logTo rollbackLog w3)))"

definition restoreFromFile ::
  "ModConfig \<Rightarrow> io \<Rightarrow> world \<Rightarrow> Item list \<Rightarrow> (exn + RestoreResult) \<times> Item list \<times> world" where
  "restoreFromFile config env w inventory =
     (case checkFileSize config env of
        Some sizeError \<Rightarrow>
          (Inr (failed sizeError), inventory,
           deleteSnapshotFile env (logTo [(LogWarning, ''Snapshot file size check failed'')] w))
      | None \<Rightarrow>
          (case readSnapshotWithRetry config env of
             (None, readLog) \<Rightarrow>
               (Inr (failed FailedToReadAfterRetries), inventory, logTo readLog w)
           | (Some snapshotJson, readLog) \<Rightarrow>
               (case jsonParse env snapshotJson of
                  Inl e \<Rightarrow>
                    (Inr (failed (JsonParseError (message e))), inventory,
                     deleteSnapshotFile env (logTo [(LogError, ''JSON parse error'')] w))
                | Inr parsed \<Rightarrow>
                    (case validateSnapshot parsed of
                       Some validationError \<Rightarrow>
                         (Inr (failed (ValidationFailed validationError)), inventory,
                          deleteSnapshotFile env
                            (logTo [(LogWarning, ''Snapshot validation failed'')] w))
                     | None \<Rightarrow>
                         let snapshot = asInventorySnapshot parsed;
                             (compatible, versionLog) = validateSnapshotVersion snapshot
                         in if \<not> compatible
                            then (Inr (failed VersionIncompatible), inventory,
                                  deleteSnapshotFile env
                                    (logTo (versionLog @
                                       [(LogWarning, ''Snapshot version is incompatible - skipping restoration'')]) w))
                            else
                              let w1 = logTo versionLog w;
                                  profileEquipmentId = findEquipmentId inventory;
                                  snapshotEquipmentId = findEquipmentId (items snapshot)
                              in if \<not> truthy profileEquipmentId
                                 then (Inr (failed NoEquipmentInProfile), inventory,
                                       logTo [(LogError, ''Could not find Equipment container in profile'')] w1)
                                 else
                                   applySnapshot config env
                                     (if \<not> truthy snapshotEquipmentId
                                      then logTo [(LogWarning, ''Could not find Equipment container in snapshot'')] w1
                                      else w1)
                                     inventory snapshot (the profileEquipmentId)
                                     snapshotEquipmentId))))"

subsection \<open>Public API\<close>

text \<open>
  \<^verbatim>\<open>tryRestore\<close>. The inventory argument is \<open>None\<close> when the caller passes \<^verbatim>\<open>null\<close> or a
  value that is not an array. The result is the returned \<^verbatim>\<open>RestoreResult\<close>, the inventory
  array after the call and the world after the call.
\<close>

definition tryRestore ::
  "ModConfig \<Rightarrow> io \<Rightarrow> world \<Rightarrow> string \<Rightarrow> Item list option
     \<Rightarrow> RestoreResult \<times> Item list option \<times> world" where
  "tryRestore config env w sessionId inventory =
     (if \<not> isValidSessionId sessionId
      then (failed InvalidSessionIdFormat, inventory,
            logTo [(LogWarning, ''Invalid session ID format'')] w)
      else
        let (allowed, rateLimits) = checkRateLimit config (clock env) (rateLimitMap w) sessionId;
            w1 = w\<lparr>rateLimitMap := rateLimits\<rparr>
        in if \<not> allowed then (failed RateLimitExceeded, inventory, w1)
           else
             (case inventory of
                None \<Rightarrow> (failed InventoryNotArray, inventory, w1)
              | Some inventoryArray \<Rightarrow>
                  if \<not> pathInsideSnapshots env
                  then (failed InvalidSnapshotPath, inventory,
                        logTo [(LogError, ''Path traversal attempt detected'')] w1)
                  else if \<not> snapshotFileExists w1
                  then (failed NoSnapshotFileFound, inventory, w1)
                  else
                    (case restoreFromFile config env w1 inventoryArray of
                       (Inr restoreResult, inventoryAfter, w2) \<Rightarrow>
                         (restoreResult, Some inventoryAfter, w2)
                     | (Inl e, inventoryAfter, w2) \<Rightarrow>
                         (failed (UnexpectedError (message e)), Some inventoryAfter,
                          logTo ((LogError, ''Error restoring from snapshot'')
                                 # (if verboseLogging config then [(LogError, ''Stack trace'')]
                                    else [])) w2))))"

subsection \<open>Notions used to state the properties\<close>

text \<open>
  The states (\<open>current\<close>, \<open>depth\<close>, \<open>visited\<close>) in which the loop of \<^verbatim>\<open>traceRootSlot\<close>
  stands at the head of an iteration, for one traced item: the initial state, and the
  state after an iteration that neither returned nor left the loop.
\<close>

inductive traceReach ::
  "nat \<Rightarrow> string option \<Rightarrow> (string \<rightharpoonup> Item) \<Rightarrow> Item \<Rightarrow> Item option \<times> nat \<times> string set \<Rightarrow> bool"
  for maxDepth equipmentId itemLookup item where
  start: "traceReach maxDepth equipmentId itemLookup item (Some item, 0, {})"
| step: "traceReach maxDepth equipmentId itemLookup item (Some cur, depth, visited) \<Longrightarrow>
         depth < maxDepth \<Longrightarrow>
         \<not> (item_id cur \<noteq> [] \<and> item_id cur \<in> visited) \<Longrightarrow>
         parentId cur \<noteq> equipmentId \<Longrightarrow>
         truthy (parentId cur) \<Longrightarrow>
         traceReach maxDepth equipmentId itemLookup item
           (itemLookup (the (parentId cur)), depth + 1,
            if item_id cur \<noteq> [] then insert (item_id cur) visited else visited)"

text \<open>No sub-object of an \<^verbatim>\<open>upd\<close> whose property the clone reads is \<^verbatim>\<open>null\<close>.\<close>

definition noNullSubObject :: "ItemUpd \<Rightarrow> bool" where
  "noNullSubObject u =
     (Foldable u \<noteq> JsNull \<and> MedKit u \<noteq> JsNull \<and> Repairable u \<noteq> JsNull \<and>
      Resource u \<noteq> JsNull \<and> FoodDrink u \<noteq> JsNull \<and> Tag u \<noteq> JsNull \<and> Key u \<noteq> JsNull \<and>
      Light u \<noteq> JsNull \<and> Togglable u \<noteq> JsNull \<and> FireMode u \<noteq> JsNull \<and> Sight u \<noteq> JsNull)"


text \<open>The failures after which \<^verbatim>\<open>restoreFromFile\<close> calls \<^verbatim>\<open>deleteSnapshotFile\<close>.\<close>

fun deletingFailure :: "failure \<Rightarrow> bool" where
  "deletingFailure (SnapshotFileTooLarge fileSize limit) = True"
| "deletingFailure CouldNotReadFileStats = True"
| "deletingFailure (JsonParseError m) = True"
| "deletingFailure (ValidationFailed v) = True"
| "deletingFailure VersionIncompatible = True"
| "deletingFailure InvalidSessionIdFormat = False"
| "deletingFailure RateLimitExceeded = False"
| "deletingFailure InventoryNotArray = False"
| "deletingFailure InvalidSnapshotPath = False"
| "deletingFailure NoSnapshotFileFound = False"
| "deletingFailure FailedToReadAfterRetries = False"
| "deletingFailure NoEquipmentInProfile = False"
| "deletingFailure (RolledBack m) = False"
| "deletingFailure (UnexpectedError m) = False"

definition deletesSnapshot :: "RestoreResult \<Rightarrow> bool" where
  "deletesSnapshot r =
     (success r \<or> (case errorMessage r of None \<Rightarrow> False | Some f \<Rightarrow> deletingFailure f))"

text \<open>What a call does to the snapshot file, given whether it called
  \<^verbatim>\<open>deleteSnapshotFile\<close>: one more \<^verbatim>\<open>fs.unlinkSync\<close> if the file existed, and the file is
  gone if that unlink did not throw.\<close>

definition fileEffect :: "io \<Rightarrow> world \<Rightarrow> world \<Rightarrow> bool \<Rightarrow> bool" where
  "fileEffect env w w' deleteCalled =
     (unlinkCalls w' = unlinkCalls w + (if deleteCalled \<and> snapshotFileExists w then 1 else 0) \<and>
      snapshotFileExists w' =
        (snapshotFileExists w \<and> \<not> (deleteCalled \<and> unlinkError env = None)))"


text \<open>
  The ids to remove, as the claim describes them: the ids in \<open>D\<close> (the direct children in
  managed slots), and the id of every record whose parent is to be removed. A parent link
  is a \<^verbatim>\<open>parentId\<close> that passes the truthiness test of the code.
\<close>

inductive_set removable :: "Item list \<Rightarrow> string set \<Rightarrow> string set"
  for its :: "Item list" and D :: "string set" where
  direct: "i \<in> D \<Longrightarrow> i \<in> removable its D"
| nested: "item \<in> set its \<Longrightarrow> truthy (parentId item) \<Longrightarrow>
           the (parentId item) \<in> removable its D \<Longrightarrow> item_id item \<in> removable its D"

text \<open>A set of ids to which a pass of the inner loop adds nothing.\<close>

definition closedUnder :: "Item list \<Rightarrow> string set \<Rightarrow> bool" where
  "closedUnder its S =
     (\<forall>item \<in> set its. truthy (parentId item) \<and> the (parentId item) \<in> S \<longrightarrow> item_id item \<in> S)"


text \<open>A snapshot item that \<^verbatim>\<open>addSnapshotItems\<close> does not skip as the equipment container
  or for a missing \<^verbatim>\<open>_id\<close> or \<^verbatim>\<open>_tpl\<close>, and one that it does not skip before the duplicate
  check.\<close>

definition passesFieldChecks :: "Item \<Rightarrow> bool" where
  "passesFieldChecks item =
     (item_tpl item \<noteq> EQUIPMENT_TEMPLATE_ID \<and> item_id item \<noteq> [] \<and> item_tpl item \<noteq> [])"

definition nonManagedSlot :: "string set \<Rightarrow> (string \<rightharpoonup> string) \<Rightarrow> Item \<Rightarrow> bool" where
  "nonManagedSlot included itemRootSlots item =
     (truthy (itemRootSlots (item_id item)) \<and> included \<noteq> {} \<and>
      the (itemRootSlots (item_id item)) \<notin> included)"

definition reachesDuplicateCheck :: "string set \<Rightarrow> (string \<rightharpoonup> string) \<Rightarrow> Item \<Rightarrow> bool" where
  "reachesDuplicateCheck included itemRootSlots item =
     (passesFieldChecks item \<and> \<not> nonManagedSlot included itemRootSlots item)"

text \<open>The number of records of a collection that have a given id.\<close>

definition countId :: "string \<Rightarrow> Item list \<Rightarrow> nat" where
  "countId i its = length (filter (\<lambda>item. item_id item = i) its)"

text \<open>Every non-empty id of the inventory array is in the set of existing ids.\<close>

definition idsCovered :: "add_state \<Rightarrow> bool" where
  "idsCovered st =
     (\<forall>item \<in> set (inventoryItems st). item_id item \<noteq> [] \<longrightarrow> item_id item \<in> existingItemIds st)"

text \<open>The map of root slots that \<^verbatim>\<open>restoreFromFile\<close> builds for the items of a snapshot (the
  lookup is the one of the same items), and the root slot that \<^verbatim>\<open>traceRootSlot\<close> resolves
  for one record with that lookup: \<open>None\<close> or the empty string when it resolves none.\<close>

definition snapshotRootSlots ::
  "ModConfig \<Rightarrow> Item list \<Rightarrow> string option \<Rightarrow> (string \<rightharpoonup> string)" where
  "snapshotRootSlots config snapshotItems snapshotEquipmentId =
     fst (buildRootSlotMap config snapshotItems snapshotEquipmentId
            (buildItemLookup snapshotItems))"

definition resolvedRootSlot ::
  "ModConfig \<Rightarrow> Item list \<Rightarrow> string option \<Rightarrow> Item \<Rightarrow> string option" where
  "resolvedRootSlot config snapshotItems snapshotEquipmentId item =
     fst (traceRootSlot config item snapshotEquipmentId (buildItemLookup snapshotItems))"

text \<open>A record of the collection that has the id of a snapshot item which passed the field
  checks and the slot check.\<close>

definition appendedFrom :: "string set \<Rightarrow> (string \<rightharpoonup> string) \<Rightarrow> Item list \<Rightarrow> Item \<Rightarrow> bool" where
  "appendedFrom inc m xs i =
     (\<exists>y \<in> set xs. item_id y = item_id i \<and> passesFieldChecks y \<and> \<not> nonManagedSlot inc m y)"

subsection \<open>Concrete inputs\<close>

definition versioned :: "string option \<Rightarrow> InventorySnapshot" where
  "versioned m = \<lparr>items = [], includedSlots = None, emptySlots = None, modVersion = m\<rparr>"

definition mkItem :: "string \<Rightarrow> string \<Rightarrow> string option \<Rightarrow> string option \<Rightarrow> Item" where
  "mkItem i t p s =
     \<lparr>item_id = i, item_tpl = t, parentId = p, slotId = s, location = None, upd = None\<rparr>"

definition noUpd :: ItemUpd where
  "noUpd =
     \<lparr>StackObjectsCount = Absent, SpawnedInSession = Absent, Foldable = Absent,
      MedKit = Absent, Repairable = Absent, Resource = Absent, FoodDrink = Absent,
      Tag = Absent, Dogtag = Absent, Key = Absent, Light = Absent, Togglable = Absent,
      FireMode = Absent, Sight = Absent, Other = []\<rparr>"

text \<open>A world in which the snapshot file exists, and an outside world in which every
  file operation succeeds and the file holds the given value.\<close>

definition freshWorld :: world where
  "freshWorld = \<lparr>rateLimitMap = Map.empty, snapshotFileExists = True, unlinkCalls = 0, logged = []\<rparr>"

definition fileWith :: "unknown_snapshot \<Rightarrow> io" where
  "fileWith v =
     \<lparr>clock = 0, pathInsideSnapshots = True, statSize = Some 1000,
      readFile = (\<lambda>n. Inr ''{}''), jsonParse = (\<lambda>c. Inr v), unlinkError = None\<rparr>"

definition snapshotOf ::
  "Item list \<Rightarrow> string list option \<Rightarrow> string list option \<Rightarrow> unknown_snapshot" where
  "snapshotOf its inc emp = SnapshotObject (Some (map ObjectItem its)) inc emp (Some MOD_VERSION)"

text \<open>A snapshot as the producer of this repository writes it: the ammunition stack has
  an \<^verbatim>\<open>upd\<close> with a stack count, and its unset \<^verbatim>\<open>Foldable\<close> is written as \<^verbatim>\<open>null\<close>.\<close>

definition snapE :: Item where
  "snapE = mkItem ''E'' EQUIPMENT_TEMPLATE_ID None None"

definition snapW :: Item where
  "snapW = mkItem ''W'' ''weapon'' (Some ''E'') (Some ''Holster'')"

definition nullFoldableUpd :: ItemUpd where
  "nullFoldableUpd = noUpd\<lparr>StackObjectsCount := Present 30, Foldable := JsNull\<rparr>"

definition snapA :: Item where
  "snapA = (mkItem ''A'' ''ammo'' (Some ''W'') (Some ''cartridges''))\<lparr>upd := Some nullFoldableUpd\<rparr>"

definition nullFoldableSnapshot :: unknown_snapshot where
  "nullFoldableSnapshot = snapshotOf [snapE, snapW, snapA] (Some [''holster'']) None"

text \<open>An inventory in which a repair kit carries the sub-field \<^verbatim>\<open>RepairKit\<close>, which
  \<^verbatim>\<open>ItemUpd\<close> does not declare, and a looted pistol sits in the holster.\<close>

definition repairKitUpd :: ItemUpd where
  "repairKitUpd = noUpd\<lparr>Other := [(''RepairKit'', JObj [(''Resource'', JNum 50)])]\<rparr>"

definition invE2 :: Item where
  "invE2 = mkItem ''E2'' EQUIPMENT_TEMPLATE_ID None None"

definition invK :: Item where
  "invK = (mkItem ''K'' ''kit'' (Some ''E2'') (Some ''Pockets''))\<lparr>upd := Some repairKitUpd\<rparr>"

definition invL :: Item where
  "invL = mkItem ''L'' ''loot'' (Some ''E2'') (Some ''Holster'')"

definition repairKitInventory :: "Item list" where
  "repairKitInventory = [invE2, invK, invL]"

text \<open>The snapshot items of the test "should handle items with circular parent
  references".\<close>

definition cycleItem1 :: Item where
  "cycleItem1 = mkItem ''item1'' ''tpl1'' (Some ''item2'') (Some ''slot1'')"

definition cycleItem2 :: Item where
  "cycleItem2 = mkItem ''item2'' ''tpl2'' (Some ''item1'') (Some ''slot2'')"

definition cycleItems :: "Item list" where
  "cycleItems = [mkItem ''equip1'' EQUIPMENT_TEMPLATE_ID None None, cycleItem1, cycleItem2]"

text \<open>An item of a snapshot that has no equipment container: no \<^verbatim>\<open>parentId\<close>, and a
  slot name.\<close>

definition orphanItem :: Item where
  "orphanItem = mkItem ''a'' ''weapon'' None (Some ''Holster'')"

text \<open>An inventory with a looted pistol in the holster, a magazine in the pistol, and an
  item in the pockets.\<close>

definition lootE2 :: Item where
  "lootE2 = mkItem ''E2'' EQUIPMENT_TEMPLATE_ID None None"

definition lootX :: Item where
  "lootX = mkItem ''X'' ''junk'' (Some ''E2'') (Some ''Pockets'')"

definition lootL :: Item where
  "lootL = mkItem ''L'' ''pistol'' (Some ''E2'') (Some ''Holster'')"

definition lootL2 :: Item where
  "lootL2 = mkItem ''L2'' ''magazine'' (Some ''L'') (Some ''mod_magazine'')"

definition lootedInventory :: "Item list" where
  "lootedInventory = [lootE2, lootX, lootL, lootL2]"

text \<open>The snapshot and the inventory of the scenario "managed replace".\<close>

definition holsterSnapshot :: unknown_snapshot where
  "holsterSnapshot = snapshotOf [snapE, snapW] (Some [''holster'']) None"

definition bareInventory :: "Item list" where
  "bareInventory = [invE2]"



text \<open>The weapon of the snapshot, as it is added to the inventory.\<close>

definition restoredW :: Item where
  "restoredW = snapW\<lparr>parentId := Some ''E2''\<rparr>"

text \<open>A second record with the equipment template, in the pockets of the snapshot.\<close>

definition strayEquipment :: Item where
  "strayEquipment = mkItem ''P'' EQUIPMENT_TEMPLATE_ID (Some ''E'') (Some ''Pockets'')"

text \<open>An item in the pockets of the snapshot.\<close>

definition snapQ :: Item where
  "snapQ = mkItem ''Q'' ''junk'' (Some ''E'') (Some ''Pockets'')"

text \<open>A magazine in the weapon of the snapshot and a round in the item of the pockets: their
  root slots are those of their parents.\<close>

definition snapM :: Item where
  "snapM = mkItem ''M'' ''magazine'' (Some ''W'') (Some ''mod_magazine'')"

definition snapN :: Item where
  "snapN = mkItem ''N'' ''round'' (Some ''Q'') (Some ''main'')"

definition nestedSnapshotItems :: "Item list" where
  "nestedSnapshotItems = [snapE, snapW, snapM, snapQ, snapN]"

text \<open>A record in the pockets of the snapshot that has the id of the weapon.\<close>

definition pocketsW :: Item where
  "pocketsW = mkItem ''W'' ''junk'' (Some ''E'') (Some ''Pockets'')"

section \<open>Properties\<close>

subsection \<open>Evaluation of the string functions\<close>

lemmas string_eval =
  truthy_def split_def parseInt_def parseDigits_def isDigit_def digitValue_def digits_def
  isWhiteSpace_def toLowerCase_def toLowerChar_def upperLetters_def

lemma default_config_simps:
  "maxParentTraversalDepth DEFAULT_CONFIG = 20"
  "maxFileReadRetries DEFAULT_CONFIG = 5"
  "maxSnapshotFileSizeBytes DEFAULT_CONFIG = 10485760"
  "verboseLogging DEFAULT_CONFIG = False"
  "minRestoreIntervalMs DEFAULT_CONFIG = 1000"
  by (simp_all add: DEFAULT_CONFIG_def)

subsection \<open>Version compatibility\<close>

lemma parseVersion_MOD_VERSION:
  "parseVersion (Some MOD_VERSION) = Some \<lparr>major = 1, minor = 1, patch = 0\<rparr>"
  by (simp add: parseVersion_def MOD_VERSION_def string_eval)

text \<open>
  Claim C7, as amended. The version check rejects a snapshot exactly when its
  \<^verbatim>\<open>modVersion\<close> is absent or the empty string, or when the current version and the
  snapshot version both parse and their major components differ. A non-empty version
  string that does not parse is accepted with the warning "Could not parse snapshot
  version"; with equal majors, a snapshot minor above the current one is accepted with
  the two "newer version" warnings, and a snapshot minor that is not above it is accepted
  with no warning.
\<close>

theorem version_check_decision:
  "((fst (validateSnapshotVersion s) = False) \<longleftrightarrow>
      (\<not> truthy (modVersion s) \<or>
       (\<exists>c v. parseVersion (Some MOD_VERSION) = Some c \<and>
              parseVersion (modVersion s) = Some v \<and> major v \<noteq> major c))) \<and>
   (truthy (modVersion s) \<and> parseVersion (modVersion s) = None \<longrightarrow>
      validateSnapshotVersion s = (True, [(LogWarning, ''Could not parse snapshot version'')])) \<and>
   (\<forall>c v. parseVersion (Some MOD_VERSION) = Some c \<and> parseVersion (modVersion s) = Some v \<and>
          major v = major c \<and> minor v > minor c \<longrightarrow>
      validateSnapshotVersion s =
        (True, [(LogWarning, ''Snapshot is from newer version''),
                (LogWarning, ''Please update the mod to ensure compatibility.'')])) \<and>
   (\<forall>c v. parseVersion (Some MOD_VERSION) = Some c \<and> parseVersion (modVersion s) = Some v \<and>
          major v = major c \<and> minor v \<le> minor c \<longrightarrow>
      validateSnapshotVersion s = (True, []))"
proof -
  have cur: "parseVersion (Some MOD_VERSION) = Some \<lparr>major = 1, minor = 1, patch = 0\<rparr>"
    by (rule parseVersion_MOD_VERSION)
  show ?thesis
  proof (cases "truthy (modVersion s)")
    case False
    then have "parseVersion (modVersion s) = None"
      by (simp add: parseVersion_def)
    with False show ?thesis
      by (simp add: validateSnapshotVersion_def cur)
  next
    case True
    then show ?thesis
      by (cases "parseVersion (modVersion s)")
         (auto simp: validateSnapshotVersion_def cur)
  qed
qed

theorem version_check_decision_witness:
  "fst (validateSnapshotVersion (versioned None)) = False \<and>
   fst (validateSnapshotVersion (versioned (Some ''2.0.0''))) = False \<and>
   validateSnapshotVersion (versioned (Some ''abc'')) =
     (True, [(LogWarning, ''Could not parse snapshot version'')]) \<and>
   validateSnapshotVersion (versioned (Some ''1.5.0'')) =
     (True, [(LogWarning, ''Snapshot is from newer version''),
             (LogWarning, ''Please update the mod to ensure compatibility.'')]) \<and>
   validateSnapshotVersion (versioned (Some ''1.0.3'')) = (True, [])"
proof -
  have p2: "parseVersion (Some ''2.0.0'') = Some \<lparr>major = 2, minor = 0, patch = 0\<rparr>"
    by (simp add: parseVersion_def string_eval)
  have p3: "parseVersion (Some ''abc'') = None"
    by (simp add: parseVersion_def string_eval)
  have p4: "parseVersion (Some ''1.5.0'') = Some \<lparr>major = 1, minor = 5, patch = 0\<rparr>"
    by (simp add: parseVersion_def string_eval)
  have p5: "parseVersion (Some ''1.0.3'') = Some \<lparr>major = 1, minor = 0, patch = 3\<rparr>"
    by (simp add: parseVersion_def string_eval)
  show ?thesis
    using version_check_decision [of "versioned None"]
      version_check_decision [of "versioned (Some ''2.0.0'')"]
      version_check_decision [of "versioned (Some ''abc'')"]
      version_check_decision [of "versioned (Some ''1.5.0'')"]
      version_check_decision [of "versioned (Some ''1.0.3'')"]
    by (simp add: versioned_def parseVersion_MOD_VERSION p2 p3 p4 p5 truthy_def)
qed

text \<open>
  Claim C7 as stated fails: an empty \<^verbatim>\<open>modVersion\<close> is present, is a version string that
  does not parse, and is rejected by the test \<^verbatim>\<open>!snapshot.modVersion\<close>.
\<close>

theorem version_check_empty_string_counterexample:
  "modVersion (versioned (Some '''')) \<noteq> None \<and>
   parseVersion (modVersion (versioned (Some ''''))) = None \<and>
   fst (validateSnapshotVersion (versioned (Some ''''))) = False"
proof -
  have "parseVersion (Some []) = None"
    by (simp add: parseVersion_def truthy_def)
  then show ?thesis
    by (simp add: versioned_def validateSnapshotVersion_def parseVersion_MOD_VERSION truthy_def)
qed

subsection \<open>Deep clone\<close>

lemma cloneSubObject_simps:
  "cloneSubObject p Absent = Inr Absent"
  "cloneSubObject p (Present v) = Inr (Present v)"
  "cloneSubObject p JsNull =
     Inl (JsError (''Cannot read properties of null (reading '' @ [CHR 0x27] @ p @ [CHR 0x27] @
                   '')''))"
  by (simp_all add: cloneSubObject_def)

lemma cloneSubObject_not_null: "f \<noteq> JsNull \<Longrightarrow> cloneSubObject p f = Inr f"
  by (cases f) (simp_all add: cloneSubObject_def)

lemma bindE_simps:
  "bindE (Inr v) f = f v"
  "bindE (Inl e) f = Inl e"
  by (simp_all add: bindE_def)

lemma deepCloneItemUpd_None: "deepCloneItemUpd None = Inr None"
  by (simp add: deepCloneItemUpd_def)

lemma deepCloneItemUpd_Some:
  assumes "noNullSubObject u"
  shows "deepCloneItemUpd (Some u) = Inr (Some (u\<lparr>Dogtag := spreadDogtag (Dogtag u), Other := []\<rparr>))"
  using assms
  by (simp add: deepCloneItemUpd_def noNullSubObject_def cloneSubObject_not_null bindE_simps)

text \<open>On an \<^verbatim>\<open>upd\<close> that has only declared sub-fields, none of them \<^verbatim>\<open>null\<close>, the clone
  is equal to its argument.\<close>

lemma deepCloneItemUpd_declared:
  assumes "noNullSubObject u" and "Dogtag u \<noteq> JsNull" and "Other u = []"
  shows "deepCloneItemUpd (Some u) = Inr (Some u)"
proof -
  have "spreadDogtag (Dogtag u) = Dogtag u"
    using assms(2) by (cases "Dogtag u") (simp_all add: spreadDogtag_def)
  then show ?thesis
    using assms(1,3) by (simp add: deepCloneItemUpd_Some)
qed

text \<open>
  Claim C4 at a failing input: an \<^verbatim>\<open>upd\<close> whose only sub-field is \<^verbatim>\<open>RepairKit\<close>, which
  the interface \<^verbatim>\<open>ItemUpd\<close> does not declare. The clone is the empty object: the
  sub-field is dropped, so the clone is not deep-equal to its argument.
\<close>

theorem deep_clone_drops_undeclared_subfield:
  "deepCloneItemUpd (Some repairKitUpd) = Inr (Some noUpd) \<and>
   Other repairKitUpd = [(''RepairKit'', JObj [(''Resource'', JNum 50)])] \<and>
   Other noUpd = [] \<and> noUpd \<noteq> repairKitUpd"
proof -
  have n: "noNullSubObject repairKitUpd"
    by (simp add: noNullSubObject_def repairKitUpd_def noUpd_def)
  have "deepCloneItemUpd (Some repairKitUpd) = Inr (Some noUpd)"
    by (simp add: deepCloneItemUpd_Some [OF n]) (simp add: repairKitUpd_def noUpd_def spreadDogtag_def)
  moreover have "noUpd \<noteq> repairKitUpd"
    by (simp add: repairKitUpd_def noUpd_def)
  ultimately show ?thesis
    by (simp add: repairKitUpd_def noUpd_def)
qed

subsection \<open>Root slot trace\<close>

declare traceLoop.simps [simp del]

lemma traceLoop_reach:
  assumes "traceReach M e L item s"
  shows "traceLoop M e L (fst s) (fst (snd s)) (snd (snd s)) = traceLoop M e L (Some item) 0 {}"
  using assms
proof (induction rule: traceReach.induct)
  case start
  show ?case by simp
next
  case (step cur depth visited)
  have "traceLoop M e L (Some cur) depth visited =
        traceLoop M e L (L (the (parentId cur))) (depth + 1)
          (if item_id cur \<noteq> [] then insert (item_id cur) visited else visited)"
    using step.hyps(2-5) by (subst traceLoop.simps) auto
  with step.IH show ?case by simp
qed

lemma traceReach_depth:
  assumes "traceReach M e L item s"
  shows "fst (snd s) \<le> M"
  using assms by (induction rule: traceReach.induct) auto

lemma traceLoop_log_cases:
  "snd (traceLoop M e L cur depth visited) = [] \<or>
   (fst (traceLoop M e L cur depth visited) = None \<and>
    (snd (traceLoop M e L cur depth visited) = [cycleWarning] \<or>
     snd (traceLoop M e L cur depth visited) = [depthWarning]))"
proof (induction M e L cur depth visited rule: traceLoop.induct)
  case (1 maxDepth equipmentId itemLookup current depth visited)
  show ?case
  proof (cases current)
    case None
    then show ?thesis
      by (subst (1 2 3 4) traceLoop.simps) (simp add: traceExit_def)
  next
    case (Some cur)
    show ?thesis
    proof (cases "depth < maxDepth \<and> \<not> (item_id cur \<noteq> [] \<and> item_id cur \<in> visited) \<and>
        parentId cur \<noteq> equipmentId \<and> truthy (parentId cur)")
      case True
      then have eq: "traceLoop maxDepth equipmentId itemLookup current depth visited =
          traceLoop maxDepth equipmentId itemLookup (itemLookup (the (parentId cur))) (depth + 1)
            (if item_id cur \<noteq> [] then insert (item_id cur) visited else visited)"
        using Some by (subst traceLoop.simps) auto
      from True Some have "\<not> \<not> depth < maxDepth"
        "\<not> (item_id cur \<noteq> [] \<and> item_id cur \<in> visited)"
        "parentId cur \<noteq> equipmentId" "\<not> \<not> truthy (parentId cur)"
        by auto
      from "1.IH" [OF Some this] show ?thesis
        unfolding eq .
    next
      case False
      then show ?thesis
        using Some by (subst (1 2 3 4) traceLoop.simps) (auto simp: traceExit_def)
    qed
  qed
qed

text \<open>
  Claim C9. The trace is a total function (its loop has a termination proof above) and
  has no exception. Whenever the walk stands at a record whose id it has visited, the
  trace ends with the cycle warning and no root slot; whenever it stands at a record with
  the depth budget used up, it ends with the depth warning and no root slot; and in every
  case the trace either logs nothing, or logs exactly one of the two warnings and
  resolves no root slot.
\<close>

theorem trace_root_slot_cycle_and_depth:
  "(traceReach (maxParentTraversalDepth config) equipmentId itemLookup item
       (Some cur, depth, visited) \<and>
     depth < maxParentTraversalDepth config \<and> item_id cur \<noteq> [] \<and> item_id cur \<in> visited \<longrightarrow>
     traceRootSlot config item equipmentId itemLookup = (None, [cycleWarning])) \<and>
   (traceReach (maxParentTraversalDepth config) equipmentId itemLookup item
       (Some cur, depth, visited) \<and>
     depth \<ge> maxParentTraversalDepth config \<longrightarrow>
     traceRootSlot config item equipmentId itemLookup = (None, [depthWarning])) \<and>
   (snd (traceRootSlot config item equipmentId itemLookup) = [] \<or>
    (fst (traceRootSlot config item equipmentId itemLookup) = None \<and>
     (snd (traceRootSlot config item equipmentId itemLookup) = [cycleWarning] \<or>
      snd (traceRootSlot config item equipmentId itemLookup) = [depthWarning])))"
proof (intro conjI impI)
  assume a: "traceReach (maxParentTraversalDepth config) equipmentId itemLookup item
       (Some cur, depth, visited) \<and>
     depth < maxParentTraversalDepth config \<and> item_id cur \<noteq> [] \<and> item_id cur \<in> visited"
  then have "traceLoop (maxParentTraversalDepth config) equipmentId itemLookup (Some cur) depth visited
      = (None, [cycleWarning])"
    by (subst traceLoop.simps) simp
  with traceLoop_reach [of "maxParentTraversalDepth config" equipmentId itemLookup item
      "(Some cur, depth, visited)"] a
  show "traceRootSlot config item equipmentId itemLookup = (None, [cycleWarning])"
    by (simp add: traceRootSlot_def)
next
  assume a: "traceReach (maxParentTraversalDepth config) equipmentId itemLookup item
       (Some cur, depth, visited) \<and> depth \<ge> maxParentTraversalDepth config"
  then have "traceLoop (maxParentTraversalDepth config) equipmentId itemLookup (Some cur) depth visited
      = (None, [depthWarning])"
    by (subst traceLoop.simps) (simp add: traceExit_def)
  with traceLoop_reach [of "maxParentTraversalDepth config" equipmentId itemLookup item
      "(Some cur, depth, visited)"] a
  show "traceRootSlot config item equipmentId itemLookup = (None, [depthWarning])"
    by (simp add: traceRootSlot_def)
next
  show "snd (traceRootSlot config item equipmentId itemLookup) = [] \<or>
    (fst (traceRootSlot config item equipmentId itemLookup) = None \<and>
     (snd (traceRootSlot config item equipmentId itemLookup) = [cycleWarning] \<or>
      snd (traceRootSlot config item equipmentId itemLookup) = [depthWarning]))"
    unfolding traceRootSlot_def by (rule traceLoop_log_cases)
qed

lemma lookup_cycle:
  "buildItemLookup cycleItems ''item1'' = Some cycleItem1"
  "buildItemLookup cycleItems ''item2'' = Some cycleItem2"
  by (simp_all add: buildItemLookup_def cycleItems_def cycleItem1_def cycleItem2_def mkItem_def)

lemma cycle_fields:
  "item_id cycleItem1 = ''item1''" "parentId cycleItem1 = Some ''item2''"
  "item_id cycleItem2 = ''item2''" "parentId cycleItem2 = Some ''item1''"
  by (simp_all add: cycleItem1_def cycleItem2_def mkItem_def)

theorem trace_root_slot_cycle_and_depth_witness:
  "traceRootSlot DEFAULT_CONFIG cycleItem1 (Some ''equip1'') (buildItemLookup cycleItems)
     = (None, [cycleWarning]) \<and>
   traceRootSlot (DEFAULT_CONFIG\<lparr>maxParentTraversalDepth := 2\<rparr>) cycleItem1 (Some ''equip1'')
     (buildItemLookup cycleItems) = (None, [depthWarning])"
proof -
  let ?L = "buildItemLookup cycleItems"
  let ?e = "Some ''equip1''"
  have reach: "traceReach M ?e ?L cycleItem1 (Some cycleItem1, Suc (Suc 0), {''item2'', ''item1''})"
    if "2 \<le> M" for M
  proof -
    have r0: "traceReach M ?e ?L cycleItem1 (Some cycleItem1, 0, {})"
      by (rule traceReach.start)
    have r1: "traceReach M ?e ?L cycleItem1 (Some cycleItem2, 1, {''item1''})"
      using traceReach.step [OF r0] that
      by (simp add: lookup_cycle cycle_fields truthy_def)
    show ?thesis
      using traceReach.step [OF r1] that
      by (simp add: lookup_cycle cycle_fields truthy_def insert_commute)
  qed
  have a: "traceReach (maxParentTraversalDepth DEFAULT_CONFIG) ?e ?L cycleItem1
             (Some cycleItem1, Suc (Suc 0), {''item2'', ''item1''})"
    by (rule reach) (simp add: DEFAULT_CONFIG_def)
  have b: "traceReach (maxParentTraversalDepth (DEFAULT_CONFIG\<lparr>maxParentTraversalDepth := 2\<rparr>)) ?e ?L
             cycleItem1 (Some cycleItem1, Suc (Suc 0), {''item2'', ''item1''})"
    by (rule reach) simp
  show ?thesis
    using trace_root_slot_cycle_and_depth [of DEFAULT_CONFIG ?e ?L cycleItem1 cycleItem1 "Suc (Suc 0)"
        "{''item2'', ''item1''}"]
      trace_root_slot_cycle_and_depth [of "DEFAULT_CONFIG\<lparr>maxParentTraversalDepth := 2\<rparr>" ?e ?L
        cycleItem1 cycleItem1 "Suc (Suc 0)" "{''item2'', ''item1''}"]
      a b
    by (simp add: DEFAULT_CONFIG_def cycle_fields)
qed

text \<open>
  Claim C6 at a failing input. The snapshot has no equipment container, so the
  equipment id is \<^verbatim>\<open>undefined\<close>; the traced item has no \<^verbatim>\<open>parentId\<close>. The comparison
  \<^verbatim>\<open>current.parentId === equipmentId\<close> holds between the two \<^verbatim>\<open>undefined\<close>, and the
  trace returns the slot name of the item instead of no root slot.
\<close>

theorem trace_root_slot_without_equipment:
  "traceRootSlot DEFAULT_CONFIG orphanItem None Map.empty = (Some ''Holster'', []) \<and>
   parentId orphanItem = None"
  unfolding traceRootSlot_def
  by (subst traceLoop.simps) (simp add: orphanItem_def mkItem_def DEFAULT_CONFIG_def)

text \<open>With an equipment id, the trace does what claim C6 says: the slot name of the
  record whose parent is the equipment container, and no root slot at a record without
  \<^verbatim>\<open>parentId\<close>.\<close>

lemma trace_root_slot_with_equipment:
  assumes "traceReach (maxParentTraversalDepth config) (Some e) itemLookup item
             (Some cur, depth, visited)"
    and "depth < maxParentTraversalDepth config"
    and "\<not> (item_id cur \<noteq> [] \<and> item_id cur \<in> visited)"
  shows "parentId cur = Some e \<Longrightarrow>
           traceRootSlot config item (Some e) itemLookup = (slotId cur, [])"
    and "parentId cur = None \<Longrightarrow>
           traceRootSlot config item (Some e) itemLookup = (None, [])"
proof -
  have eq: "traceRootSlot config item (Some e) itemLookup =
        traceLoop (maxParentTraversalDepth config) (Some e) itemLookup (Some cur) depth visited"
    using traceLoop_reach [OF assms(1)] by (simp add: traceRootSlot_def)
  show "parentId cur = Some e \<Longrightarrow>
           traceRootSlot config item (Some e) itemLookup = (slotId cur, [])"
    unfolding eq using assms(2,3) by (subst traceLoop.simps) auto
  show "parentId cur = None \<Longrightarrow>
           traceRootSlot config item (Some e) itemLookup = (None, [])"
    unfolding eq using assms(2,3) by (subst traceLoop.simps) (auto simp: truthy_def traceExit_def)
qed


subsection \<open>What a restoration call returns and does to the snapshot file\<close>

lemma logTo_simps [simp]:
  "snapshotFileExists (logTo l w) = snapshotFileExists w"
  "unlinkCalls (logTo l w) = unlinkCalls w"
  "rateLimitMap (logTo l w) = rateLimitMap w"
  "logged (logTo l w) = logged w @ l"
  by (simp_all add: logTo_def)

lemma deleteSnapshotFile_simps [simp]:
  "unlinkCalls (deleteSnapshotFile env w) = unlinkCalls w + (if snapshotFileExists w then 1 else 0)"
  "snapshotFileExists (deleteSnapshotFile env w) = (snapshotFileExists w \<and> unlinkError env \<noteq> None)"
  "rateLimitMap (deleteSnapshotFile env w) = rateLimitMap w"
  by (auto simp: deleteSnapshotFile_def split: option.splits)

lemma fileEffect_refl: "fileEffect env w w False"
  by (simp add: fileEffect_def)

lemma fileEffect_logTo: "fileEffect env w (logTo l w) False"
  by (simp add: fileEffect_def)

lemma fileEffect_delete: "fileEffect env w (deleteSnapshotFile env (logTo l w)) True"
  by (auto simp: fileEffect_def)

lemma fileEffect_logTo_left:
  "fileEffect env (logTo l w) w' d = fileEffect env w w' d"
  by (simp add: fileEffect_def)

lemma deletesSnapshot_simps [simp]:
  "deletesSnapshot (succeeded a b c) = True"
  "deletesSnapshot (failed f) = deletingFailure f"
  by (simp_all add: deletesSnapshot_def succeeded_def failed_def)

lemma success_simps [simp]:
  "success (succeeded a b c) = True"
  "success (failed f) = False"
  "errorMessage (failed f) = Some f"
  "itemsAdded (failed f) = 0" "duplicatesSkipped (failed f) = 0" "nonManagedSkipped (failed f) = 0"
  by (simp_all add: succeeded_def failed_def)

text \<open>What \<open>applySnapshot\<close> returns, by the outcome of its three steps.\<close>

lemma applySnapshot_backup_throws:
  assumes "createInventoryBackup ivt = Inl e"
  shows "\<exists>w'. applySnapshot cfg env w ivt snap pe se = (Inl e, ivt, w') \<and> fileEffect env w w' False"
  using assms by (simp add: applySnapshot_def Let_def split_beta fileEffect_def)

lemma applySnapshot_success:
  assumes "createInventoryBackup ivt = Inr backup"
    and "addSnapshotItems
           (fst (removeManagedSlotItems cfg ivt pe (includedSet (buildSlotSets snap se))
                   (snapshotSet (buildSlotSets snap se)) (emptySet (buildSlotSets snap se))))
           (items snap) pe se (includedSet (buildSlotSets snap se))
           (fst (buildRootSlotMap cfg (items snap) se (buildItemLookup (items snap))))
           (buildExistingItemIds
              (fst (removeManagedSlotItems cfg ivt pe (includedSet (buildSlotSets snap se))
                   (snapshotSet (buildSlotSets snap se)) (emptySet (buildSlotSets snap se)))))
         = Inr st"
  shows "\<exists>w'. applySnapshot cfg env w ivt snap pe se =
           (Inr (succeeded (added st) (duplicates st) (nonManaged st)), inventoryItems st, w')
         \<and> fileEffect env w w' True"
  using assms by (simp add: applySnapshot_def Let_def split_beta fileEffect_def)

lemma applySnapshot_rollback:
  assumes "createInventoryBackup ivt = Inr backup"
    and "addSnapshotItems
           (fst (removeManagedSlotItems cfg ivt pe (includedSet (buildSlotSets snap se))
                   (snapshotSet (buildSlotSets snap se)) (emptySet (buildSlotSets snap se))))
           (items snap) pe se (includedSet (buildSlotSets snap se))
           (fst (buildRootSlotMap cfg (items snap) se (buildItemLookup (items snap))))
           (buildExistingItemIds
              (fst (removeManagedSlotItems cfg ivt pe (includedSet (buildSlotSets snap se))
                   (snapshotSet (buildSlotSets snap se)) (emptySet (buildSlotSets snap se)))))
         = Inl (e, st)"
  shows "\<exists>w'. applySnapshot cfg env w ivt snap pe se =
           (Inr (failed (RolledBack (message e))), backup, w')
         \<and> fileEffect env w w' False"
  using assms by (simp add: applySnapshot_def Let_def split_beta fileEffect_def restoreFromBackup_def)

lemma applySnapshot_effect:
  assumes "applySnapshot cfg env w ivt snap pe se = (x, ivt', w')"
  shows "case x of
           Inl e \<Rightarrow> fileEffect env w w' False \<and> ivt' = ivt \<and> createInventoryBackup ivt = Inl e
         | Inr r \<Rightarrow> fileEffect env w w' (deletesSnapshot r) \<and>
                    ((\<exists>a d n. r = succeeded a d n) \<or> ((\<exists>m. r = failed (RolledBack m)) \<and>
                                  createInventoryBackup ivt = Inr ivt'))"
proof (cases "createInventoryBackup ivt")
  case (Inl e)
  from applySnapshot_backup_throws [OF Inl, of cfg env w snap pe se] assms Inl
  show ?thesis by auto
next
  case (Inr backup)
  let ?add = "addSnapshotItems
           (fst (removeManagedSlotItems cfg ivt pe (includedSet (buildSlotSets snap se))
                   (snapshotSet (buildSlotSets snap se)) (emptySet (buildSlotSets snap se))))
           (items snap) pe se (includedSet (buildSlotSets snap se))
           (fst (buildRootSlotMap cfg (items snap) se (buildItemLookup (items snap))))
           (buildExistingItemIds
              (fst (removeManagedSlotItems cfg ivt pe (includedSet (buildSlotSets snap se))
                   (snapshotSet (buildSlotSets snap se)) (emptySet (buildSlotSets snap se)))))"
  show ?thesis
  proof (cases ?add)
    case (Inl a)
    obtain e st where a: "a = (e, st)" by (cases a)
    from applySnapshot_rollback [OF Inr Inl [unfolded a], of env w] assms Inr
    show ?thesis by auto
  next
    case r: (Inr st)
    from applySnapshot_success [OF Inr r, of env w] assms
    show ?thesis by auto
  qed
qed

lemma restoreFromFile_effect:
  assumes "restoreFromFile cfg env w ivt = (x, ivt', w')"
  shows "case x of
           Inl e \<Rightarrow> fileEffect env w w' False \<and> ivt' = ivt
         | Inr r \<Rightarrow> fileEffect env w w' (deletesSnapshot r) \<and>
                    ((\<exists>a d n. r = succeeded a d n) \<or>
                     ((\<exists>m. r = failed (RolledBack m)) \<and> createInventoryBackup ivt = Inr ivt') \<or>
                     ((\<exists>f. r = failed f \<and> (\<forall>m. f \<noteq> RolledBack m)) \<and> ivt' = ivt))"
proof (cases "checkFileSize cfg env")
  case (Some sizeError)
  then have "sizeError = CouldNotReadFileStats \<or> (\<exists>a b. sizeError = SnapshotFileTooLarge a b)"
    by (auto simp: checkFileSize_def split: option.splits if_splits)
  with Some assms show ?thesis
    by (auto simp: restoreFromFile_def fileEffect_def)
next
  case None
  note size = None
  show ?thesis
  proof (cases "fst (readSnapshotWithRetry cfg env)")
    case None
    with size assms show ?thesis
      by (auto simp: restoreFromFile_def fileEffect_def split: prod.splits)
  next
    case (Some snapshotJson)
    note read = Some
    show ?thesis
    proof (cases "jsonParse env snapshotJson")
      case (Inl e)
      with size read assms show ?thesis
        by (auto simp: restoreFromFile_def fileEffect_def split: prod.splits)
    next
      case (Inr parsed)
      note parse = Inr
      show ?thesis
      proof (cases "validateSnapshot parsed")
        case (Some validationError)
        with size read parse assms show ?thesis
          by (auto simp: restoreFromFile_def fileEffect_def split: prod.splits)
      next
        case None
        note valid = None
        show ?thesis
        proof (cases "fst (validateSnapshotVersion (asInventorySnapshot parsed))")
          case False
          with size read parse valid assms show ?thesis
            by (auto simp: restoreFromFile_def fileEffect_def Let_def split: prod.splits)
        next
          case True
          note version = True
          show ?thesis
          proof (cases "truthy (findEquipmentId ivt)")
            case False
            with size read parse valid version assms show ?thesis
              by (auto simp: restoreFromFile_def fileEffect_def Let_def split: prod.splits)
          next
            case True
            with size read parse valid version assms
            obtain w1 where ap: "applySnapshot cfg env w1 ivt (asInventorySnapshot parsed)
                 (the (findEquipmentId ivt)) (findEquipmentId (items (asInventorySnapshot parsed)))
                 = (x, ivt', w')"
              and w1: "unlinkCalls w1 = unlinkCalls w" "snapshotFileExists w1 = snapshotFileExists w"
              by (auto simp: restoreFromFile_def Let_def split: prod.splits if_splits)
            from applySnapshot_effect [OF ap] w1 show ?thesis
              by (cases x) (auto simp: fileEffect_def)
          qed
        qed
      qed
    qed
  qed
qed

lemma tryRestore_effect:
  assumes "tryRestore cfg env w sid ivt = (r, ivt', w')"
  shows "fileEffect env w w' (deletesSnapshot r) \<and>
         (deletesSnapshot r \<longrightarrow> snapshotFileExists w) \<and>
         ((\<exists>a d n. r = succeeded a d n) \<or>
          ((\<exists>m. r = failed (RolledBack m)) \<and>
             (\<exists>before after. ivt = Some before \<and> ivt' = Some after \<and>
                createInventoryBackup before = Inr after)) \<or>
          ((\<exists>f. r = failed f \<and> (\<forall>m. f \<noteq> RolledBack m)) \<and> ivt' = ivt))"
proof (cases "isValidSessionId sid \<and> fst (checkRateLimit cfg (clock env) (rateLimitMap w) sid) \<and>
    ivt \<noteq> None \<and> pathInsideSnapshots env \<and> snapshotFileExists w")
  case False
  with assms show ?thesis
    by (auto simp: tryRestore_def fileEffect_def Let_def split: prod.splits option.splits if_splits)
next
  case True
  then obtain before where b: "ivt = Some before" by auto
  obtain x after w2 where rf:
    "restoreFromFile cfg env (w\<lparr>rateLimitMap := snd (checkRateLimit cfg (clock env) (rateLimitMap w) sid)\<rparr>)
       before = (x, after, w2)"
    by (metis prod_cases3)
  from restoreFromFile_effect [OF rf] True b assms rf show ?thesis
    by (cases x) (auto simp: tryRestore_def fileEffect_def Let_def split: prod.splits)
qed


subsection \<open>Removal of the records in managed slots\<close>

declare compactLoop.simps [simp del] nestedLoop.simps [simp del] readLoop.simps [simp del]

lemma compactLoop_take:
  "w \<le> r \<Longrightarrow> r \<le> length arr \<Longrightarrow>
   take (snd (compactLoop S arr r w)) (fst (compactLoop S arr r w)) =
     take w arr @ filter (\<lambda>i. item_id i \<notin> S) (drop r arr)"
proof (induction S arr r w rule: compactLoop.induct)
  case (1 S arr r w)
  show ?case
  proof (cases "r < length arr")
    case False
    with "1.prems" show ?thesis
      by (subst (1 2) compactLoop.simps) simp
  next
    case True
    have dr: "drop r arr = arr ! r # drop (r + 1) arr"
      using True by (simp add: Cons_nth_drop_Suc)
    show ?thesis
    proof (cases "item_id (arr ! r) \<notin> S")
      case keep: True
      have eq: "compactLoop S arr r w = compactLoop S (arr[w := arr ! r]) (r + 1) (w + 1)"
        using True keep by (subst compactLoop.simps) simp
      have wl: "w < length arr" using "1.prems" True by simp
      have t: "take (w + 1) (arr[w := arr ! r]) = take w arr @ [arr ! r]"
        using wl by (simp add: take_Suc_conv_app_nth)
      have d: "drop (r + 1) (arr[w := arr ! r]) = drop (r + 1) arr"
        using "1.prems" by simp
      have "take (snd (compactLoop S (arr[w := arr ! r]) (r + 1) (w + 1)))
              (fst (compactLoop S (arr[w := arr ! r]) (r + 1) (w + 1))) =
            take (w + 1) (arr[w := arr ! r]) @
              filter (\<lambda>i. item_id i \<notin> S) (drop (r + 1) (arr[w := arr ! r]))"
        using "1.IH"(1) [OF True keep] "1.prems" True by simp
      then show ?thesis
        unfolding eq t d dr using keep by simp
    next
      case drop: False
      have eq: "compactLoop S arr r w = compactLoop S arr (r + 1) w"
        using True drop by (subst compactLoop.simps) simp
      have "take (snd (compactLoop S arr (r + 1) w)) (fst (compactLoop S arr (r + 1) w)) =
            take w arr @ filter (\<lambda>i. item_id i \<notin> S) (drop (r + 1) arr)"
        using "1.IH"(2) [OF True drop] "1.prems" True by simp
      then show ?thesis
        unfolding eq dr using drop by simp
    qed
  qed
qed

lemma compactLoop_filter:
  "take (snd (compactLoop S its 0 0)) (fst (compactLoop S its 0 0)) =
     filter (\<lambda>i. item_id i \<notin> S) its"
  using compactLoop_take [of 0 0 its S] by simp

lemma directChildren_foldl:
  "foldl (\<lambda>itemsToRemove item.
              if parentId item \<noteq> Some pe then itemsToRemove
              else if \<not> isSlotManaged (slotOrEmpty item) inc snap emp then itemsToRemove
              else insert (item_id item) itemsToRemove) A its =
   A \<union> {item_id i | i. i \<in> set its \<and> parentId i = Some pe \<and>
                       isSlotManaged (slotOrEmpty i) inc snap emp}"
  by (induction its arbitrary: A) auto

lemma directChildren_set:
  "directChildren pe inc snap emp its =
     {item_id i | i. i \<in> set its \<and> parentId i = Some pe \<and>
                     isSlotManaged (slotOrEmpty i) inc snap emp}"
  by (simp add: directChildren_def directChildren_foldl)

lemma nestedStep_mono: "fst acc \<subseteq> fst (nestedStep acc item)"
  by (cases acc) (auto simp: nestedStep_def)

lemma foldl_nestedStep_mono: "fst acc \<subseteq> fst (foldl nestedStep acc xs)"
proof (induction xs arbitrary: acc)
  case Nil
  show ?case by simp
next
  case (Cons x xs)
  have "fst acc \<subseteq> fst (nestedStep acc x)" by (rule nestedStep_mono)
  also have "\<dots> \<subseteq> fst (foldl nestedStep (nestedStep acc x) xs)" by (rule Cons.IH)
  finally show ?case by simp
qed

lemma foldl_nestedStep_sound:
  "set xs \<subseteq> set its \<Longrightarrow> fst acc \<subseteq> removable its D \<Longrightarrow>
   fst (foldl nestedStep acc xs) \<subseteq> removable its D"
proof (induction xs arbitrary: acc)
  case Nil
  then show ?case by simp
next
  case (Cons x xs)
  have "fst (nestedStep acc x) \<subseteq> removable its D"
    using Cons.prems by (cases acc) (auto simp: nestedStep_def intro: removable.nested)
  with Cons.IH [of "nestedStep acc x"] Cons.prems show ?case by simp
qed

lemma foldl_nestedStep_found:
  "snd (foldl nestedStep acc xs) = False \<Longrightarrow>
   snd acc = False \<and> fst (foldl nestedStep acc xs) = fst acc \<and>
   (\<forall>item \<in> set xs. truthy (parentId item) \<and> the (parentId item) \<in> fst acc
      \<longrightarrow> item_id item \<in> fst acc)"
proof (induction xs arbitrary: acc)
  case Nil
  then show ?case by simp
next
  case (Cons x xs)
  from Cons.IH [of "nestedStep acc x"] Cons.prems
  have ih: "snd (nestedStep acc x) = False"
    "fst (foldl nestedStep (nestedStep acc x) xs) = fst (nestedStep acc x)"
    "\<forall>item \<in> set xs. truthy (parentId item) \<and> the (parentId item) \<in> fst (nestedStep acc x)
      \<longrightarrow> item_id item \<in> fst (nestedStep acc x)"
    by simp_all
  from ih(1) have same: "nestedStep acc x = acc"
    and nochild: "\<not> (truthy (parentId x) \<and> the (parentId x) \<in> fst acc \<and> item_id x \<notin> fst acc)"
    by (cases acc; auto simp: nestedStep_def split: if_splits)+
  from ih same nochild show ?case by auto
qed

lemma nestedPass_mono: "S \<subseteq> fst (nestedPass its S)"
  using foldl_nestedStep_mono [of "(S, False)" its] by (simp add: nestedPass_def)

lemma nestedPass_sound: "S \<subseteq> removable its D \<Longrightarrow> fst (nestedPass its S) \<subseteq> removable its D"
  using foldl_nestedStep_sound [of its its "(S, False)" D] by (simp add: nestedPass_def)

lemma nestedPass_found:
  "snd (nestedPass its S) = False \<Longrightarrow> fst (nestedPass its S) = S \<and> closedUnder its S"
  using foldl_nestedStep_found [of "(S, False)" its] by (simp add: nestedPass_def closedUnder_def)

lemma nestedLoop_mono: "S \<subseteq> fst (nestedLoop M its S f k)"
proof (induction M its S f k rule: nestedLoop.induct)
  case (1 M its S f k)
  show ?case
  proof (cases "f \<and> k < M")
    case True
    have "S \<subseteq> fst (nestedPass its S)" by (rule nestedPass_mono)
    also have "\<dots> \<subseteq> fst (nestedLoop M its (fst (nestedPass its S)) (snd (nestedPass its S)) (k + 1))"
      using "1.IH" True by simp
    finally show ?thesis
      using True by (subst nestedLoop.simps) simp
  next
    case False
    then show ?thesis by (subst nestedLoop.simps) auto
  qed
qed

lemma nestedLoop_sound:
  "S \<subseteq> removable its D \<Longrightarrow> fst (nestedLoop M its S f k) \<subseteq> removable its D"
proof (induction M its S f k rule: nestedLoop.induct)
  case (1 M its S f k)
  show ?case
  proof (cases "f \<and> k < M")
    case True
    have "fst (nestedLoop M its (fst (nestedPass its S)) (snd (nestedPass its S)) (k + 1))
            \<subseteq> removable its D"
      using "1.IH" True nestedPass_sound [OF "1.prems"] by simp
    then show ?thesis
      using True by (subst nestedLoop.simps) simp
  next
    case False
    with "1.prems" show ?thesis by (subst nestedLoop.simps) auto
  qed
qed

lemma nestedLoop_closed:
  "f \<or> closedUnder its S \<Longrightarrow> snd (nestedLoop M its S f k) < M \<Longrightarrow>
   closedUnder its (fst (nestedLoop M its S f k))"
proof (induction M its S f k rule: nestedLoop.induct)
  case (1 M its S f k)
  show ?case
  proof (cases "f \<and> k < M")
    case True
    have eq: "nestedLoop M its S f k =
        nestedLoop M its (fst (nestedPass its S)) (snd (nestedPass its S)) (k + 1)"
      using True by (subst nestedLoop.simps) simp
    have inv: "snd (nestedPass its S) \<or> closedUnder its (fst (nestedPass its S))"
    proof (cases "snd (nestedPass its S)")
      case True
      then show ?thesis by simp
    next
      case False
      from nestedPass_found [of its S] False
      have "fst (nestedPass its S) = S" and "closedUnder its S" by simp_all
      then show ?thesis by simp
    qed
    from "1.IH" [OF True inv] "1.prems"(2) show ?thesis
      unfolding eq by simp
  next
    case False
    then have eq: "nestedLoop M its S f k = (S, k)"
      by (subst nestedLoop.simps) auto
    from "1.prems" False show ?thesis
      unfolding eq by auto
  qed
qed

lemma nestedLoop_count: "k \<le> M \<Longrightarrow> snd (nestedLoop M its S f k) \<le> M"
proof (induction M its S f k rule: nestedLoop.induct)
  case (1 M its S f k)
  show ?case
  proof (cases "f \<and> k < M")
    case True
    with "1.IH" show ?thesis by (subst nestedLoop.simps) simp
  next
    case False
    with "1.prems" show ?thesis by (subst nestedLoop.simps) auto
  qed
qed

lemma removable_least:
  assumes "D \<subseteq> R" and "closedUnder its R"
  shows "removable its D \<subseteq> R"
proof
  fix i assume "i \<in> removable its D"
  then show "i \<in> R"
    using assms by (induction rule: removable.induct) (auto simp: closedUnder_def)
qed

lemma removalSet_props:
  "directChildren pe inc snap emp its \<subseteq> fst (removalSet cfg its pe inc snap emp)"
  "fst (removalSet cfg its pe inc snap emp) \<subseteq> removable its (directChildren pe inc snap emp its)"
  "snd (removalSet cfg its pe inc snap emp) < maxParentTraversalDepth cfg \<Longrightarrow>
     fst (removalSet cfg its pe inc snap emp) = removable its (directChildren pe inc snap emp its)"
  "snd (removalSet cfg its pe inc snap emp) \<le> maxParentTraversalDepth cfg"
proof -
  let ?D = "directChildren pe inc snap emp its"
  show 1: "?D \<subseteq> fst (removalSet cfg its pe inc snap emp)"
    unfolding removalSet_def by (rule nestedLoop_mono)
  show 2: "fst (removalSet cfg its pe inc snap emp) \<subseteq> removable its ?D"
    unfolding removalSet_def by (rule nestedLoop_sound) (auto intro: removable.direct)
  show "fst (removalSet cfg its pe inc snap emp) = removable its ?D"
    if "snd (removalSet cfg its pe inc snap emp) < maxParentTraversalDepth cfg"
  proof -
    have "closedUnder its (fst (removalSet cfg its pe inc snap emp))"
      using that unfolding removalSet_def by (intro nestedLoop_closed) simp_all
    with 1 have "removable its ?D \<subseteq> fst (removalSet cfg its pe inc snap emp)"
      by (rule removable_least)
    with 2 show ?thesis by auto
  qed
  show "snd (removalSet cfg its pe inc snap emp) \<le> maxParentTraversalDepth cfg"
    unfolding removalSet_def by (rule nestedLoop_count) simp
qed

lemma removeManagedSlotItems_filter:
  "removeManagedSlotItems cfg its pe inc snap emp =
     (filter (\<lambda>i. item_id i \<notin> fst (removalSet cfg its pe inc snap emp)) its,
      length (filter (\<lambda>i. item_id i \<in> fst (removalSet cfg its pe inc snap emp)) its),
      if snd (removalSet cfg its pe inc snap emp) \<ge> maxParentTraversalDepth cfg
      then [iterationWarning] else [])"
proof -
  let ?R = "fst (removalSet cfg its pe inc snap emp)"
  have len: "length its - length (filter (\<lambda>i. item_id i \<notin> ?R) its) =
             length (filter (\<lambda>i. item_id i \<in> ?R) its)"
    using sum_length_filter_compl [of "\<lambda>i. item_id i \<in> ?R" its] by simp
  show ?thesis
    unfolding removeManagedSlotItems_def Let_def split_beta compactLoop_filter len
    by simp
qed


lemma nestedLoop_go:
  "f \<Longrightarrow> k < M \<Longrightarrow>
   nestedLoop M its S f k =
     nestedLoop M its (fst (nestedPass its S)) (snd (nestedPass its S)) (Suc k)"
  by (subst nestedLoop.simps) simp

lemma nestedLoop_stop: "\<not> f \<or> \<not> k < M \<Longrightarrow> nestedLoop M its S f k = (S, k)"
  by (subst nestedLoop.simps) auto

lemma nestedLoop_passes:
  "k \<le> snd (nestedLoop M its S f k) \<and>
   fst (nestedLoop M its S f k) =
     ((\<lambda>T. fst (nestedPass its T)) ^^ (snd (nestedLoop M its S f k) - k)) S"
proof (induction M its S f k rule: nestedLoop.induct)
  case (1 M its S f k)
  show ?case
  proof (cases "f \<and> k < M")
    case True
    let ?r = "nestedLoop M its (fst (nestedPass its S)) (snd (nestedPass its S)) (k + 1)"
    have eq: "nestedLoop M its S f k = ?r"
      using True by (subst nestedLoop.simps) simp
    from "1.IH" [OF True]
    have le: "k + 1 \<le> snd ?r"
      and it: "fst ?r = ((\<lambda>T. fst (nestedPass its T)) ^^ (snd ?r - (k + 1))) (fst (nestedPass its S))"
      by simp_all
    define F where "F = (\<lambda>T. fst (nestedPass its T))"
    from le have "snd ?r - k = Suc (snd ?r - (k + 1))" by simp
    then have "(F ^^ (snd ?r - k)) S = (F ^^ (snd ?r - (k + 1))) (F S)"
      by (simp add: funpow_swap1)
    with it have "fst ?r = ((\<lambda>T. fst (nestedPass its T)) ^^ (snd ?r - k)) S"
      by (simp add: F_def)
    with le show ?thesis unfolding eq by simp
  next
    case False
    then have "nestedLoop M its S f k = (S, k)"
      by (subst nestedLoop.simps) auto
    then show ?thesis by simp
  qed
qed

text \<open>
  Claim C2. \<^verbatim>\<open>removeManagedSlotItems\<close> collects the ids of the direct children of the
  equipment container whose slot \<^verbatim>\<open>isSlotManaged\<close> accepts; it then runs passes over the
  collection that add the id of every record whose parent id is collected, at most
  \<^verbatim>\<open>maxParentTraversalDepth\<close> of them; the ids collected are ids of direct children and
  of their descendants only, and they are all of these when the loop ends below the
  cap. The array afterwards holds exactly the records whose id was not collected, in
  their order; the count returned is the number of records dropped; the warning is
  logged exactly when the iteration count reaches the cap, and the function returns in
  every case.
\<close>

theorem remove_managed_slot_items_spec:
  "directChildren pe inc snap emp its =
     {item_id i | i. i \<in> set its \<and> parentId i = Some pe \<and>
                     isSlotManaged (slotOrEmpty i) inc snap emp} \<and>
   fst (removalSet cfg its pe inc snap emp) =
     ((\<lambda>T. fst (nestedPass its T)) ^^ snd (removalSet cfg its pe inc snap emp))
       (directChildren pe inc snap emp its) \<and>
   snd (removalSet cfg its pe inc snap emp) \<le> maxParentTraversalDepth cfg \<and>
   directChildren pe inc snap emp its \<subseteq> fst (removalSet cfg its pe inc snap emp) \<and>
   fst (removalSet cfg its pe inc snap emp) \<subseteq> removable its (directChildren pe inc snap emp its) \<and>
   (snd (removalSet cfg its pe inc snap emp) < maxParentTraversalDepth cfg \<longrightarrow>
      fst (removalSet cfg its pe inc snap emp) =
        removable its (directChildren pe inc snap emp its)) \<and>
   removeManagedSlotItems cfg its pe inc snap emp =
     (filter (\<lambda>i. item_id i \<notin> fst (removalSet cfg its pe inc snap emp)) its,
      length (filter (\<lambda>i. item_id i \<in> fst (removalSet cfg its pe inc snap emp)) its),
      if snd (removalSet cfg its pe inc snap emp) \<ge> maxParentTraversalDepth cfg
      then [iterationWarning] else [])"
proof -
  have passes: "fst (removalSet cfg its pe inc snap emp) =
     ((\<lambda>T. fst (nestedPass its T)) ^^ snd (removalSet cfg its pe inc snap emp))
       (directChildren pe inc snap emp its)"
    using nestedLoop_passes [of 0 "maxParentTraversalDepth cfg" its
        "directChildren pe inc snap emp its" True]
    by (simp add: removalSet_def)
  show ?thesis
  proof (intro conjI impI)
    show "directChildren pe inc snap emp its =
     {item_id i | i. i \<in> set its \<and> parentId i = Some pe \<and>
                     isSlotManaged (slotOrEmpty i) inc snap emp}"
      by (rule directChildren_set)
  qed (rule passes removalSet_props removeManagedSlotItems_filter, assumption?)+
qed

lemma loot_fields:
  "item_id lootE2 = ''E2''" "parentId lootE2 = None" "slotId lootE2 = None"
  "item_id lootX = ''X''" "parentId lootX = Some ''E2''" "slotId lootX = Some ''Pockets''"
  "item_id lootL = ''L''" "parentId lootL = Some ''E2''" "slotId lootL = Some ''Holster''"
  "item_id lootL2 = ''L2''" "parentId lootL2 = Some ''L''" "slotId lootL2 = Some ''mod_magazine''"
  by (simp_all add: lootE2_def lootX_def lootL_def lootL2_def mkItem_def)

lemma loot_directChildren:
  "directChildren ''E2'' {''holster''} {} {} lootedInventory = {''L''}"
  by (simp add: directChildren_def lootedInventory_def loot_fields isSlotManaged_def
      slotOrEmpty_def string_eval)

lemma loot_removalSet:
  "removalSet DEFAULT_CONFIG lootedInventory ''E2'' {''holster''} {} {} = ({''L2'', ''L''}, 2)"
proof -
  have p1: "nestedPass lootedInventory {''L''} = ({''L2'', ''L''}, True)"
    by (simp add: nestedPass_def nestedStep_def lootedInventory_def loot_fields truthy_def)
  have p2: "nestedPass lootedInventory {''L2'', ''L''} = ({''L2'', ''L''}, False)"
    by (simp add: nestedPass_def nestedStep_def lootedInventory_def loot_fields truthy_def)
  have "nestedLoop 20 lootedInventory {''L''} True 0 = ({''L2'', ''L''}, 2)"
    by (simp add: nestedLoop_go p1 p2 nestedLoop_stop)
  then show ?thesis
    by (simp add: removalSet_def loot_directChildren default_config_simps)
qed

theorem remove_managed_slot_items_spec_witness:
  "removeManagedSlotItems DEFAULT_CONFIG lootedInventory ''E2'' {''holster''} {} {} =
     ([lootE2, lootX], 2, []) \<and>
   removable lootedInventory {''L''} = {''L2'', ''L''}"
proof -
  note spec = remove_managed_slot_items_spec [where pe = "''E2''" and inc = "{''holster''}"
      and snap = "{}" and emp = "{}" and its = lootedInventory and cfg = DEFAULT_CONFIG]
  note closure = spec [THEN conjunct2, THEN conjunct2, THEN conjunct2, THEN conjunct2,
      THEN conjunct2, THEN conjunct1]
  note result = spec [THEN conjunct2, THEN conjunct2, THEN conjunct2, THEN conjunct2,
      THEN conjunct2, THEN conjunct2]
  have "removable lootedInventory {''L''} = {''L2'', ''L''}"
    using closure by (simp add: loot_removalSet loot_directChildren default_config_simps)
  moreover have "removeManagedSlotItems DEFAULT_CONFIG lootedInventory ''E2'' {''holster''} {} {} =
     ([lootE2, lootX], 2, [])"
    unfolding result loot_removalSet
    by (simp add: lootedInventory_def loot_fields default_config_simps)
  ultimately show ?thesis by simp
qed


subsection \<open>Runs of a restoration call\<close>

lemma applySnapshot_rollback_result:
  assumes "createInventoryBackup ivt = Inr backup"
    and "addSnapshotItems
           (fst (removeManagedSlotItems cfg ivt pe (includedSet (buildSlotSets snap se))
                   (snapshotSet (buildSlotSets snap se)) (emptySet (buildSlotSets snap se))))
           (items snap) pe se (includedSet (buildSlotSets snap se))
           (fst (buildRootSlotMap cfg (items snap) se (buildItemLookup (items snap))))
           (buildExistingItemIds
              (fst (removeManagedSlotItems cfg ivt pe (includedSet (buildSlotSets snap se))
                   (snapshotSet (buildSlotSets snap se)) (emptySet (buildSlotSets snap se)))))
         = Inl (e, st)"
  shows "fst (applySnapshot cfg env w ivt snap pe se) = Inr (failed (RolledBack (message e)))"
    and "fst (snd (applySnapshot cfg env w ivt snap pe se)) = backup"
  using applySnapshot_rollback [OF assms, of env w] by auto


lemma readLoop_first:
  assumes "0 < maxFileReadRetries cfg" and "readFile env 0 = Inr c" and "c \<noteq> []"
    and "startsWithBracket c"
  shows "readLoop cfg env 0 = Some c"
  using assms by (subst readLoop.simps) simp

text \<open>A call that passes every check before the backup continues with \<open>applySnapshot\<close>.\<close>

lemma restoreFromFile_reaches_apply:
  assumes "checkFileSize cfg env = None" and "readLoop cfg env 0 = Some c"
    and "jsonParse env c = Inr parsed" and "validateSnapshot parsed = None"
    and "fst (validateSnapshotVersion (asInventorySnapshot parsed))"
    and "findEquipmentId ivt = Some pe" and "pe \<noteq> []"
  shows "\<exists>w1. restoreFromFile cfg env w ivt =
           applySnapshot cfg env w1 ivt (asInventorySnapshot parsed) pe
             (findEquipmentId (items (asInventorySnapshot parsed)))"
  using assms
  by (auto simp: restoreFromFile_def readSnapshotWithRetry_def Let_def split_beta truthy_def)

lemma tryRestore_reaches_apply:
  assumes "isValidSessionId sid" and "rateLimitMap w sid = None" and "pathInsideSnapshots env"
    and "snapshotFileExists w"
    and "checkFileSize cfg env = None" and "readLoop cfg env 0 = Some c"
    and "jsonParse env c = Inr parsed" and "validateSnapshot parsed = None"
    and "fst (validateSnapshotVersion (asInventorySnapshot parsed))"
    and "findEquipmentId ivt = Some pe" and "pe \<noteq> []"
  shows "\<exists>w1. fst (tryRestore cfg env w sid (Some ivt)) =
           (case fst (applySnapshot cfg env w1 ivt (asInventorySnapshot parsed) pe
                        (findEquipmentId (items (asInventorySnapshot parsed)))) of
              Inr r \<Rightarrow> r | Inl e \<Rightarrow> failed (UnexpectedError (message e))) \<and>
         fst (snd (tryRestore cfg env w sid (Some ivt))) =
           Some (fst (snd (applySnapshot cfg env w1 ivt (asInventorySnapshot parsed) pe
                        (findEquipmentId (items (asInventorySnapshot parsed))))))"
proof -
  let ?w = "w\<lparr>rateLimitMap := snd (checkRateLimit cfg (clock env) (rateLimitMap w) sid)\<rparr>"
  from restoreFromFile_reaches_apply [OF assms(5-11), of ?w]
  obtain w1 where rf: "restoreFromFile cfg env ?w ivt =
           applySnapshot cfg env w1 ivt (asInventorySnapshot parsed) pe
             (findEquipmentId (items (asInventorySnapshot parsed)))"
    by blast
  have allowed: "fst (checkRateLimit cfg (clock env) (rateLimitMap w) sid)"
    using assms(2) by (simp add: checkRateLimit_def)
  show ?thesis
    using assms(1,3,4) allowed rf
    by (intro exI [of _ w1])
       (auto simp: tryRestore_def Let_def split_beta split: sum.splits prod.splits)
qed


lemma traceLoop_None: "traceLoop M e L None depth visited = traceExit M depth"
  by (subst traceLoop.simps) simp

lemma traceLoop_found:
  "depth < M \<Longrightarrow> \<not> (item_id cur \<noteq> [] \<and> item_id cur \<in> visited) \<Longrightarrow> parentId cur = e \<Longrightarrow>
   traceLoop M e L (Some cur) depth visited = (slotId cur, [])"
  by (subst traceLoop.simps) simp

lemma traceLoop_next:
  "depth < M \<Longrightarrow> \<not> (item_id cur \<noteq> [] \<and> item_id cur \<in> visited) \<Longrightarrow> parentId cur \<noteq> e \<Longrightarrow>
   truthy (parentId cur) \<Longrightarrow>
   traceLoop M e L (Some cur) depth visited =
     traceLoop M e L (L (the (parentId cur))) (Suc depth)
       (if item_id cur \<noteq> [] then insert (item_id cur) visited else visited)"
  by (subst traceLoop.simps) auto

lemma traceLoop_orphan:
  "depth < M \<Longrightarrow> \<not> (item_id cur \<noteq> [] \<and> item_id cur \<in> visited) \<Longrightarrow> parentId cur \<noteq> e \<Longrightarrow>
   \<not> truthy (parentId cur) \<Longrightarrow>
   traceLoop M e L (Some cur) depth visited = (None, [])"
  by (subst traceLoop.simps) (simp add: traceExit_def)

lemma fileWith_simps:
  "clock (fileWith v) = 0" "pathInsideSnapshots (fileWith v)" "statSize (fileWith v) = Some 1000"
  "readFile (fileWith v) n = Inr ''{}''" "jsonParse (fileWith v) c = Inr v"
  "unlinkError (fileWith v) = None"
  by (simp_all add: fileWith_def)


lemma freshWorld_simps:
  "rateLimitMap freshWorld sid = None" "snapshotFileExists freshWorld" "unlinkCalls freshWorld = 0"
  "logged freshWorld = []"
  by (simp_all add: freshWorld_def)

lemma session123_valid: "isValidSessionId ''session123''"
  by (simp add: isValidSessionId_def safeChars_def)

lemma validateItems_objects:
  "\<forall>item \<in> set its. item_id item \<noteq> [] \<and> item_tpl item \<noteq> [] \<Longrightarrow>
   validateItems i (map ObjectItem its) = None"
  by (induction its arbitrary: i) auto

lemma validateSnapshot_snapshotOf:
  "its \<noteq> [] \<Longrightarrow> \<forall>item \<in> set its. item_id item \<noteq> [] \<and> item_tpl item \<noteq> [] \<Longrightarrow>
   validateSnapshot (snapshotOf its inc emp) = None"
  using validateItems_objects [of its 0]
  by (cases its) (simp_all add: snapshotOf_def)

lemma objectItems_map: "objectItems (map ObjectItem its) = its"
  by (induction its) auto

lemma asInventorySnapshot_snapshotOf:
  "asInventorySnapshot (snapshotOf its inc emp) =
     \<lparr>items = its, includedSlots = inc, emptySlots = emp, modVersion = Some MOD_VERSION\<rparr>"
  by (simp add: snapshotOf_def objectItems_map)

lemma validateSnapshotVersion_current:
  "modVersion s = Some MOD_VERSION \<Longrightarrow> validateSnapshotVersion s = (True, [])"
  by (simp add: validateSnapshotVersion_def parseVersion_MOD_VERSION)
     (simp add: truthy_def MOD_VERSION_def)

lemma item_fields:
  "item_id snapE = ''E''" "item_tpl snapE = EQUIPMENT_TEMPLATE_ID" "parentId snapE = None"
  "slotId snapE = None" "upd snapE = None" "location snapE = None"
  "item_id snapW = ''W''" "item_tpl snapW = ''weapon''" "parentId snapW = Some ''E''"
  "slotId snapW = Some ''Holster''" "upd snapW = None" "location snapW = None"
  "item_id snapA = ''A''" "item_tpl snapA = ''ammo''" "parentId snapA = Some ''W''"
  "slotId snapA = Some ''cartridges''" "upd snapA = Some nullFoldableUpd" "location snapA = None"
  "item_id invE2 = ''E2''" "item_tpl invE2 = EQUIPMENT_TEMPLATE_ID" "parentId invE2 = None"
  "slotId invE2 = None" "upd invE2 = None" "location invE2 = None"
  "item_id invK = ''K''" "item_tpl invK = ''kit''" "parentId invK = Some ''E2''"
  "slotId invK = Some ''Pockets''" "upd invK = Some repairKitUpd" "location invK = None"
  "item_id invL = ''L''" "item_tpl invL = ''loot''" "parentId invL = Some ''E2''"
  "slotId invL = Some ''Holster''" "upd invL = None" "location invL = None"
  by (simp_all add: snapE_def snapW_def snapA_def invE2_def invK_def invL_def mkItem_def)

lemma tpl_not_equipment:
  "''weapon'' \<noteq> EQUIPMENT_TEMPLATE_ID" "''ammo'' \<noteq> EQUIPMENT_TEMPLATE_ID"
  "''kit'' \<noteq> EQUIPMENT_TEMPLATE_ID" "''loot'' \<noteq> EQUIPMENT_TEMPLATE_ID"
  "EQUIPMENT_TEMPLATE_ID \<noteq> []"
  by (simp_all add: EQUIPMENT_TEMPLATE_ID_def)

lemma run_lookup:
  "buildItemLookup [snapE, snapW, snapA] ''E'' = Some snapE"
  "buildItemLookup [snapE, snapW, snapA] ''W'' = Some snapW"
  "buildItemLookup [snapE, snapW] ''E'' = Some snapE"
  by (simp_all add: buildItemLookup_def item_fields)

lemma run_traces:
  "traceRootSlot DEFAULT_CONFIG snapE (Some ''E'') L = (None, [])"
  "traceRootSlot DEFAULT_CONFIG snapW (Some ''E'') L = (Some ''Holster'', [])"
  "traceRootSlot DEFAULT_CONFIG snapA (Some ''E'') (buildItemLookup [snapE, snapW, snapA])
     = (Some ''Holster'', [])"
  by (simp_all add: traceRootSlot_def default_config_simps traceLoop_found traceLoop_next
      traceLoop_orphan item_fields truthy_def run_lookup)

lemma run_rootSlotMap3:
  "buildRootSlotMap DEFAULT_CONFIG [snapE, snapW, snapA] (Some ''E'')
     (buildItemLookup [snapE, snapW, snapA]) =
   ([''W'' \<mapsto> ''holster'', ''A'' \<mapsto> ''holster''], [])"
  by (simp add: buildRootSlotMap_def run_traces item_fields truthy_def string_eval)



lemma snapshot_records:
  "asInventorySnapshot nullFoldableSnapshot =
     \<lparr>items = [snapE, snapW, snapA], includedSlots = Some [''holster''], emptySlots = None,
      modVersion = Some MOD_VERSION\<rparr>"
  "asInventorySnapshot holsterSnapshot =
     \<lparr>items = [snapE, snapW], includedSlots = Some [''holster''], emptySlots = None,
      modVersion = Some MOD_VERSION\<rparr>"
  by (simp_all add: nullFoldableSnapshot_def holsterSnapshot_def asInventorySnapshot_snapshotOf)

lemma snapshots_valid:
  "validateSnapshot nullFoldableSnapshot = None" "validateSnapshot holsterSnapshot = None"
  unfolding nullFoldableSnapshot_def holsterSnapshot_def
  by (rule validateSnapshot_snapshotOf; simp add: item_fields tpl_not_equipment)+

lemma run_equipment:
  "findEquipmentId repairKitInventory = Some ''E2''"
  "findEquipmentId bareInventory = Some ''E2''"
  "findEquipmentId [snapE, snapW, snapA] = Some ''E''"
  "findEquipmentId [snapE, snapW] = Some ''E''"
  by (simp_all add: repairKitInventory_def bareInventory_def item_fields)

lemma run_slots:
  "buildSlotSets \<lparr>items = [snapE, snapW, snapA], includedSlots = Some [''holster''],
      emptySlots = None, modVersion = v\<rparr> (Some ''E'') =
     \<lparr>includedSet = {''holster''}, snapshotSet = {''holster''}, emptySet = {}\<rparr>"
  "buildSlotSets \<lparr>items = [snapE, snapW], includedSlots = Some [''holster''],
      emptySlots = None, modVersion = v\<rparr> (Some ''E'') =
     \<lparr>includedSet = {''holster''}, snapshotSet = {''holster''}, emptySet = {}\<rparr>"
  by (simp_all add: buildSlotSets_def lowerSet_def item_fields string_eval)

lemma run_upd_clones:
  "deepCloneItemUpd (Some repairKitUpd) = Inr (Some noUpd)"
  "deepCloneItemUpd (Some nullFoldableUpd) =
     Inl (JsError ''Cannot read properties of null (reading 'Folded')'')"
  by (simp_all add: deepCloneItemUpd_def repairKitUpd_def nullFoldableUpd_def noUpd_def
      cloneSubObject_simps bindE_simps spreadDogtag_def)

lemma run_backup:
  "createInventoryBackup repairKitInventory = Inr [invE2, invK\<lparr>upd := Some noUpd\<rparr>, invL]"
  "createInventoryBackup bareInventory = Inr [invE2]"
  by (simp_all add: repairKitInventory_def bareInventory_def item_fields run_upd_clones
      deepCloneItemUpd_None bindE_simps copyLocation_def)

lemma run_removal:
  "removeManagedSlotItems DEFAULT_CONFIG repairKitInventory ''E2'' {''holster''} {''holster''} {}
     = ([invE2, invK], 1, [])"
  "removeManagedSlotItems DEFAULT_CONFIG bareInventory ''E2'' {''holster''} {''holster''} {}
     = ([invE2], 0, [])"
proof -
  have d1: "directChildren ''E2'' {''holster''} {''holster''} {} repairKitInventory = {''L''}"
    by (simp add: directChildren_def repairKitInventory_def item_fields isSlotManaged_def
        slotOrEmpty_def string_eval)
  have p1: "nestedPass repairKitInventory {''L''} = ({''L''}, False)"
    by (simp add: nestedPass_def nestedStep_def repairKitInventory_def item_fields truthy_def)
  have r1: "removalSet DEFAULT_CONFIG repairKitInventory ''E2'' {''holster''} {''holster''} {}
      = ({''L''}, 1)"
    by (simp add: removalSet_def d1 default_config_simps nestedLoop_go p1 nestedLoop_stop)
  show "removeManagedSlotItems DEFAULT_CONFIG repairKitInventory ''E2'' {''holster''} {''holster''} {}
     = ([invE2, invK], 1, [])"
    unfolding removeManagedSlotItems_filter r1
    by (simp add: repairKitInventory_def item_fields default_config_simps)
  have d2: "directChildren ''E2'' {''holster''} {''holster''} {} bareInventory = {}"
    by (simp add: directChildren_def bareInventory_def item_fields)
  have p2: "nestedPass bareInventory {} = ({}, False)"
    by (simp add: nestedPass_def nestedStep_def bareInventory_def item_fields truthy_def)
  have r2: "removalSet DEFAULT_CONFIG bareInventory ''E2'' {''holster''} {''holster''} {}
      = ({}, 1)"
    by (simp add: removalSet_def d2 default_config_simps nestedLoop_go p2 nestedLoop_stop)
  show "removeManagedSlotItems DEFAULT_CONFIG bareInventory ''E2'' {''holster''} {''holster''} {}
     = ([invE2], 0, [])"
    unfolding removeManagedSlotItems_filter r2
    by (simp add: bareInventory_def item_fields default_config_simps)
qed

lemma run_existing:
  "buildExistingItemIds [invE2, invK] = {''K'', ''E2''}"
  "buildExistingItemIds [invE2] = {''E2''}"
  by (simp_all add: buildExistingItemIds_def item_fields)

lemma run_create:
  "createItemFromSnapshot snapW ''E2'' (Some ''E'') = Inr restoredW"
  "createItemFromSnapshot snapA ''E2'' (Some ''E'') =
     Inl (JsError ''Cannot read properties of null (reading 'Folded')'')"
  by (simp_all add: createItemFromSnapshot_def item_fields run_upd_clones deepCloneItemUpd_None
      bindE_simps truthy_def copyLocation_def restoredW_def)

lemma run_add_rollback:
  "addSnapshotItems [invE2, invK] [snapE, snapW, snapA] ''E2'' (Some ''E'') {''holster''}
     [''W'' \<mapsto> ''holster'', ''A'' \<mapsto> ''holster''] {''K'', ''E2''} =
   Inl (JsError ''Cannot read properties of null (reading 'Folded')'',
        \<lparr>inventoryItems = [invE2, invK, restoredW], existingItemIds = {''W'', ''K'', ''E2''},
         added = 1, duplicates = 0, nonManaged = 0, addWarnings = []\<rparr>)"
  by (simp add: addSnapshotItems_def addSnapshotItem_def item_fields tpl_not_equipment
      truthy_def run_create bindE_simps)
     (simp add: restoredW_def item_fields)



lemma message_simp: "message (JsError m) = m"
  by (simp add: message_def)

lemma rollback_run:
  assumes "pathInsideSnapshots env" and "statSize env = Some 1000"
    and "readFile env 0 = Inr ''{}''" and "jsonParse env ''{}'' = Inr nullFoldableSnapshot"
  shows "fst (tryRestore DEFAULT_CONFIG env freshWorld ''session123'' (Some repairKitInventory))
           = failed (RolledBack ''Cannot read properties of null (reading 'Folded')'')"
    and "fst (snd (tryRestore DEFAULT_CONFIG env freshWorld ''session123'' (Some repairKitInventory)))
           = Some [invE2, invK\<lparr>upd := Some noUpd\<rparr>, invL]"
proof -
  let ?snap = "asInventorySnapshot nullFoldableSnapshot"
  have size: "checkFileSize DEFAULT_CONFIG env = None"
    using assms(2) by (simp add: checkFileSize_def default_config_simps)
  have read: "readLoop DEFAULT_CONFIG env 0 = Some ''{}''"
    using assms(3) by (intro readLoop_first) (simp_all add: default_config_simps startsWithBracket_def isWhiteSpace_def)
  have version: "fst (validateSnapshotVersion ?snap)"
    by (simp add: validateSnapshotVersion_current snapshot_records)
  have se: "findEquipmentId (items ?snap) = Some ''E''"
    by (simp add: snapshot_records item_fields tpl_not_equipment)
  have add: "addSnapshotItems
           (fst (removeManagedSlotItems DEFAULT_CONFIG repairKitInventory ''E2''
                   (includedSet (buildSlotSets ?snap (Some ''E'')))
                   (snapshotSet (buildSlotSets ?snap (Some ''E'')))
                   (emptySet (buildSlotSets ?snap (Some ''E'')))))
           (items ?snap) ''E2'' (Some ''E'') (includedSet (buildSlotSets ?snap (Some ''E'')))
           (fst (buildRootSlotMap DEFAULT_CONFIG (items ?snap) (Some ''E'')
                   (buildItemLookup (items ?snap))))
           (buildExistingItemIds
              (fst (removeManagedSlotItems DEFAULT_CONFIG repairKitInventory ''E2''
                   (includedSet (buildSlotSets ?snap (Some ''E'')))
                   (snapshotSet (buildSlotSets ?snap (Some ''E'')))
                   (emptySet (buildSlotSets ?snap (Some ''E''))))))
         = Inl (JsError ''Cannot read properties of null (reading 'Folded')'',
        \<lparr>inventoryItems = [invE2, invK, restoredW], existingItemIds = {''W'', ''K'', ''E2''},
         added = 1, duplicates = 0, nonManaged = 0, addWarnings = []\<rparr>)"
    by (simp add: snapshot_records run_slots run_removal run_rootSlotMap3 run_existing
        run_add_rollback)
  from tryRestore_reaches_apply [OF session123_valid freshWorld_simps(1) assms(1)
      freshWorld_simps(2) size read assms(4) snapshots_valid(1) version run_equipment(1)]
  obtain w1 where
    r: "fst (tryRestore DEFAULT_CONFIG env freshWorld ''session123'' (Some repairKitInventory)) =
         (case fst (applySnapshot DEFAULT_CONFIG env w1 repairKitInventory ?snap ''E2''
                      (findEquipmentId (items ?snap))) of
            Inr r \<Rightarrow> r | Inl e \<Rightarrow> failed (UnexpectedError (message e)))"
    and i: "fst (snd (tryRestore DEFAULT_CONFIG env freshWorld ''session123'' (Some repairKitInventory))) =
         Some (fst (snd (applySnapshot DEFAULT_CONFIG env w1 repairKitInventory ?snap ''E2''
                      (findEquipmentId (items ?snap)))))"
    by auto
  show "fst (tryRestore DEFAULT_CONFIG env freshWorld ''session123'' (Some repairKitInventory))
           = failed (RolledBack ''Cannot read properties of null (reading 'Folded')'')"
    unfolding r se applySnapshot_rollback_result(1) [OF run_backup(1) add]
    by (simp add: message_simp)
  show "fst (snd (tryRestore DEFAULT_CONFIG env freshWorld ''session123'' (Some repairKitInventory)))
           = Some [invE2, invK\<lparr>upd := Some noUpd\<rparr>, invL]"
    unfolding i se applySnapshot_rollback_result(2) [OF run_backup(1) add]
    by simp
qed





subsection \<open>Failed results\<close>

text \<open>
  Claim C10. Whatever \<^verbatim>\<open>tryRestore\<close> is called with, a result that reports failure
  carries the counts zero: every failure is built by \<^verbatim>\<open>RestoreResult.failed\<close>, also
  after a mutation error, when the counters of the additions made before the error are
  dropped with the rollback.
\<close>

theorem failed_result_has_zero_counts:
  assumes "\<not> success (fst (tryRestore config env w sessionId inventory))"
  shows "itemsAdded (fst (tryRestore config env w sessionId inventory)) = 0 \<and>
         duplicatesSkipped (fst (tryRestore config env w sessionId inventory)) = 0 \<and>
         nonManagedSkipped (fst (tryRestore config env w sessionId inventory)) = 0"
proof -
  obtain r inventory' w' where t: "tryRestore config env w sessionId inventory = (r, inventory', w')"
    by (metis prod_cases3)
  from tryRestore_effect [OF t] assms t obtain f where "r = failed f"
    by auto
  with t show ?thesis by simp
qed

theorem failed_result_has_zero_counts_witness:
  "\<not> success (fst (tryRestore DEFAULT_CONFIG (fileWith nullFoldableSnapshot) freshWorld
                     ''session123'' (Some repairKitInventory))) \<and>
   itemsAdded (fst (tryRestore DEFAULT_CONFIG (fileWith nullFoldableSnapshot) freshWorld
                     ''session123'' (Some repairKitInventory))) = 0 \<and>
   duplicatesSkipped (fst (tryRestore DEFAULT_CONFIG (fileWith nullFoldableSnapshot) freshWorld
                     ''session123'' (Some repairKitInventory))) = 0 \<and>
   nonManagedSkipped (fst (tryRestore DEFAULT_CONFIG (fileWith nullFoldableSnapshot) freshWorld
                     ''session123'' (Some repairKitInventory))) = 0 \<and>
   (case addSnapshotItems [invE2, invK] [snapE, snapW, snapA] ''E2'' (Some ''E'') {''holster''}
           [''W'' \<mapsto> ''holster'', ''A'' \<mapsto> ''holster''] {''K'', ''E2''} of
      Inl (e, st) \<Rightarrow> added st = 1 \<and> inventoryItems st = [invE2, invK, restoredW]
    | Inr st \<Rightarrow> False)"
proof -
  have f: "\<not> success (fst (tryRestore DEFAULT_CONFIG (fileWith nullFoldableSnapshot) freshWorld
                     ''session123'' (Some repairKitInventory)))"
    by (simp add: rollback_run(1) [of "fileWith nullFoldableSnapshot"] fileWith_simps)
  from failed_result_has_zero_counts [OF f] f show ?thesis
    by (simp add: run_add_rollback)
qed

subsection \<open>The inventory after a failed call\<close>

lemma copyLocation_id: "copyLocation l = l"
  by (cases l; simp add: copyLocation_def split: location.splits)

lemma createInventoryBackup_declared:
  assumes "\<forall>item \<in> set its. case upd item of None \<Rightarrow> True
             | Some u \<Rightarrow> noNullSubObject u \<and> Dogtag u \<noteq> JsNull \<and> Other u = []"
  shows "createInventoryBackup its = Inr its"
  using assms
proof (induction its)
  case Nil
  show ?case by simp
next
  case (Cons item rest)
  have "deepCloneItemUpd (upd item) = Inr (upd item)"
  proof (cases "upd item")
    case None
    then show ?thesis by (simp add: deepCloneItemUpd_None)
  next
    case (Some u)
    with Cons.prems show ?thesis by (simp add: deepCloneItemUpd_declared)
  qed
  moreover have "createInventoryBackup rest = Inr rest"
    using Cons by simp
  ultimately show ?case
    by (simp add: bindE_simps copyLocation_id)
qed

text \<open>When every \<^verbatim>\<open>upd\<close> of the inventory has declared sub-fields only, none \<^verbatim>\<open>null\<close>, a
  failed call leaves the inventory as it was.\<close>

lemma failed_call_keeps_declared_inventory:
  assumes "tryRestore config env w sessionId inventory = (r, inventory', w')"
    and "\<not> success r"
    and "\<forall>before. inventory = Some before \<longrightarrow>
           (\<forall>item \<in> set before. case upd item of None \<Rightarrow> True
             | Some u \<Rightarrow> noNullSubObject u \<and> Dogtag u \<noteq> JsNull \<and> Other u = [])"
  shows "inventory' = inventory"
proof -
  from tryRestore_effect [OF assms(1)] assms(2)
  consider (rollback) before after where "inventory = Some before" "inventory' = Some after"
      "createInventoryBackup before = Inr after"
    | (same) "inventory' = inventory"
    by auto
  then show ?thesis
  proof cases
    case rollback
    with assms(3) createInventoryBackup_declared [of before] show ?thesis by auto
  next
    case same
    then show ?thesis .
  qed
qed

text \<open>
  Claim C1 at a failing input. The snapshot is one the producer of this repository writes
  (an unset \<^verbatim>\<open>Foldable\<close> is \<^verbatim>\<open>null\<close>); the inventory holds a repair kit whose \<^verbatim>\<open>upd\<close> has
  the sub-field \<^verbatim>\<open>RepairKit\<close>. The addition throws at the ammunition stack, after the
  looted pistol was removed and the weapon added; the rollback puts the backup into the
  array, and the backup was made by \<^verbatim>\<open>deepCloneItemUpd\<close>: the call fails and the repair
  kit has lost its sub-field.
\<close>

theorem rollback_loses_undeclared_subfield:
  "success (fst (tryRestore DEFAULT_CONFIG (fileWith nullFoldableSnapshot) freshWorld
              ''session123'' (Some repairKitInventory))) = False \<and>
   fst (snd (tryRestore DEFAULT_CONFIG (fileWith nullFoldableSnapshot) freshWorld
              ''session123'' (Some repairKitInventory))) =
     Some [invE2, invK\<lparr>upd := Some noUpd\<rparr>, invL] \<and>
   repairKitInventory = [invE2, invK, invL] \<and>
   upd invK = Some repairKitUpd \<and>
   invK\<lparr>upd := Some noUpd\<rparr> \<noteq> invK"
proof -
  have "noUpd \<noteq> repairKitUpd"
    by (simp add: repairKitUpd_def noUpd_def)
  then have changed: "invK\<lparr>upd := Some noUpd\<rparr> \<noteq> invK"
    by (simp add: invK_def mkItem_def)
  have failure: "success (fst (tryRestore DEFAULT_CONFIG (fileWith nullFoldableSnapshot) freshWorld
              ''session123'' (Some repairKitInventory))) = False"
    by (simp add: rollback_run(1) [of "fileWith nullFoldableSnapshot"] fileWith_simps)
  have after: "fst (snd (tryRestore DEFAULT_CONFIG (fileWith nullFoldableSnapshot) freshWorld
              ''session123'' (Some repairKitInventory))) =
     Some [invE2, invK\<lparr>upd := Some noUpd\<rparr>, invL]"
    by (simp add: rollback_run(2) [of "fileWith nullFoldableSnapshot"] fileWith_simps)
  from failure after changed show ?thesis
    by (simp add: repairKitInventory_def item_fields)
qed

subsection \<open>Deletion of the snapshot file\<close>






subsection \<open>Addition of the snapshot items\<close>

lemma addLoop_append:
  "addLoop pe se inc m (xs @ ys) st =
     (case addLoop pe se inc m xs st of
        Inl e \<Rightarrow> Inl e
      | Inr st' \<Rightarrow> addLoop pe se inc m ys st')"
  by (induction xs arbitrary: st) (auto split: sum.splits)

lemma createItemFromSnapshot_id:
  "createItemFromSnapshot x pe se = Inr n \<Longrightarrow> item_id n = item_id x"
  by (auto simp: createItemFromSnapshot_def bindE_def split: sum.splits)

text \<open>The four ways in which the loop body ends without an exception.\<close>

lemma addSnapshotItem_cases:
  assumes "addSnapshotItem pe se inc m x st = Inr st'"
  obtains (skipped) "\<not> passesFieldChecks x" "inventoryItems st' = inventoryItems st"
      "existingItemIds st' = existingItemIds st" "added st' = added st"
      "duplicates st' = duplicates st" "nonManaged st' = nonManaged st"
    | (nonManaged) "passesFieldChecks x" "nonManagedSlot inc m x"
      "st' = st\<lparr>nonManaged := nonManaged st + 1\<rparr>"
    | (duplicate) "reachesDuplicateCheck inc m x" "item_id x \<in> existingItemIds st"
      "st' = st\<lparr>duplicates := duplicates st + 1\<rparr>"
    | (appended) n where "reachesDuplicateCheck inc m x" "item_id x \<notin> existingItemIds st"
      "createItemFromSnapshot x pe se = Inr n" "item_id n = item_id x"
      "st' = st\<lparr>inventoryItems := inventoryItems st @ [n],
                 existingItemIds := insert (item_id n) (existingItemIds st),
                 added := added st + 1\<rparr>"
proof (cases "passesFieldChecks x")
  case False
  with assms have "inventoryItems st' = inventoryItems st"
      "existingItemIds st' = existingItemIds st" "added st' = added st"
      "duplicates st' = duplicates st" "nonManaged st' = nonManaged st"
    by (auto simp: addSnapshotItem_def passesFieldChecks_def split: if_splits)
  with False show ?thesis by (rule skipped)
next
  case True
  note fields = True
  show ?thesis
  proof (cases "nonManagedSlot inc m x")
    case True
    with fields assms have "st' = st\<lparr>nonManaged := nonManaged st + 1\<rparr>"
      by (auto simp: addSnapshotItem_def passesFieldChecks_def nonManagedSlot_def Let_def)
    with fields True show ?thesis by (rule nonManaged)
  next
    case False
    with fields have reach: "reachesDuplicateCheck inc m x"
      by (simp add: reachesDuplicateCheck_def)
    show ?thesis
    proof (cases "item_id x \<in> existingItemIds st")
      case True
      with fields False assms have "st' = st\<lparr>duplicates := duplicates st + 1\<rparr>"
        by (auto simp: addSnapshotItem_def passesFieldChecks_def nonManagedSlot_def Let_def)
      with reach True show ?thesis by (rule duplicate)
    next
      case False
      note fresh = False
      from fields \<open>\<not> nonManagedSlot inc m x\<close> fresh assms
      obtain n where n: "createItemFromSnapshot x pe se = Inr n"
        and st': "st' = st\<lparr>inventoryItems := inventoryItems st @ [n],
                 existingItemIds := insert (item_id n) (existingItemIds st),
                 added := added st + 1\<rparr>"
        by (auto simp: addSnapshotItem_def passesFieldChecks_def nonManagedSlot_def Let_def
            bindE_def split: sum.splits)
      from reach fresh n createItemFromSnapshot_id [OF n] st' show ?thesis by (rule appended)
    qed
  qed
qed

lemma addSnapshotItem_covered:
  assumes "addSnapshotItem pe se inc m x st = Inr st'" and "idsCovered st"
  shows "idsCovered st'"
  using assms(1)
  by (cases rule: addSnapshotItem_cases) (use assms(2) in \<open>auto simp: idsCovered_def\<close>)

lemma addSnapshotItem_counters:
  assumes "addSnapshotItem pe se inc m x st = Inr st'"
  shows "duplicates st \<le> duplicates st' \<and> nonManaged st \<le> nonManaged st' \<and> added st \<le> added st'"
  using assms by (cases rule: addSnapshotItem_cases) auto

lemma addSnapshotItem_count:
  assumes "addSnapshotItem pe se inc m x st = Inr st'" and "k \<in> existingItemIds st \<or> k = []"
  shows "countId k (inventoryItems st') = countId k (inventoryItems st) \<and>
         (k \<in> existingItemIds st' \<or> k = [])"
  using assms(1)
proof (cases rule: addSnapshotItem_cases)
  case (appended n)
  then have "item_id n \<noteq> k"
    using assms(2) by (auto simp: reachesDuplicateCheck_def passesFieldChecks_def)
  with appended assms(2) show ?thesis by (auto simp: countId_def)
qed (use assms(2) in \<open>auto simp: countId_def\<close>)

lemma addLoop_covered:
  "addLoop pe se inc m xs st = Inr st' \<Longrightarrow> idsCovered st \<Longrightarrow> idsCovered st'"
proof (induction xs arbitrary: st)
  case Nil
  then show ?case by simp
next
  case (Cons x xs)
  then obtain mid where mid: "addSnapshotItem pe se inc m x st = Inr mid"
    and rest: "addLoop pe se inc m xs mid = Inr st'"
    by (auto split: sum.splits)
  from Cons.IH [OF rest addSnapshotItem_covered [OF mid Cons.prems(2)]] show ?case .
qed

lemma addLoop_counters:
  "addLoop pe se inc m xs st = Inr st' \<Longrightarrow>
   duplicates st \<le> duplicates st' \<and> nonManaged st \<le> nonManaged st' \<and> added st \<le> added st'"
proof (induction xs arbitrary: st)
  case Nil
  then show ?case by simp
next
  case (Cons x xs)
  then obtain mid where mid: "addSnapshotItem pe se inc m x st = Inr mid"
    and rest: "addLoop pe se inc m xs mid = Inr st'"
    by (auto split: sum.splits)
  from Cons.IH [OF rest] addSnapshotItem_counters [OF mid] show ?case by auto
qed

lemma addLoop_count:
  "addLoop pe se inc m xs st = Inr st' \<Longrightarrow> k \<in> existingItemIds st \<or> k = [] \<Longrightarrow>
   countId k (inventoryItems st') = countId k (inventoryItems st)"
proof (induction xs arbitrary: st)
  case Nil
  then show ?case by simp
next
  case (Cons x xs)
  then obtain mid where mid: "addSnapshotItem pe se inc m x st = Inr mid"
    and rest: "addLoop pe se inc m xs mid = Inr st'"
    by (auto split: sum.splits)
  from addSnapshotItem_count [OF mid Cons.prems(2)] Cons.IH [OF rest] show ?case by auto
qed

lemma buildExistingItemIds_foldl:
  "foldl (\<lambda>existing item. if item_id item \<noteq> [] then insert (item_id item) existing else existing)
     A its = A \<union> {item_id item | item. item \<in> set its \<and> item_id item \<noteq> []}"
  by (induction its arbitrary: A) auto

lemma buildExistingItemIds_set:
  "buildExistingItemIds its = {item_id item | item. item \<in> set its \<and> item_id item \<noteq> []}"
  by (simp add: buildExistingItemIds_def buildExistingItemIds_foldl)

lemma initial_covered:
  "idsCovered \<lparr>inventoryItems = ivt, existingItemIds = buildExistingItemIds ivt, added = 0,
      duplicates = 0, nonManaged = 0, addWarnings = []\<rparr>"
  by (auto simp: idsCovered_def buildExistingItemIds_set)

text \<open>A run that completes on \<open>pre @ x # post\<close> passes through the state before \<open>x\<close>
  and the state after \<open>x\<close>.\<close>

lemma addLoop_split:
  assumes "addLoop pe se inc m (pre @ x # post) st0 = Inr final"
  obtains st st' where "addLoop pe se inc m pre st0 = Inr st"
    and "addSnapshotItem pe se inc m x st = Inr st'"
    and "addLoop pe se inc m post st' = Inr final"
  using assms by (auto simp: addLoop_append split: sum.splits)


subsection \<open>The map of root slots\<close>

lemma buildRootSlotLoop_entry:
  "fst (buildRootSlotLoop cfg se L its m0) i = Some s \<Longrightarrow>
   m0 i = Some s \<or>
   (\<exists>item \<in> set its. item_id item = i \<and> truthy (fst (traceRootSlot cfg item se L)) \<and>
      s = toLowerCase (the (fst (traceRootSlot cfg item se L))))"
proof (induction its arbitrary: m0)
  case Nil
  then show ?case by simp
next
  case (Cons item rest)
  show ?case
  proof (cases "item_id item = []")
    case True
    with Cons.prems have "fst (buildRootSlotLoop cfg se L rest m0) i = Some s" by simp
    from Cons.IH [OF this] show ?thesis by auto
  next
    case False
    let ?m = "if truthy (fst (traceRootSlot cfg item se L))
              then m0(item_id item \<mapsto> toLowerCase (the (fst (traceRootSlot cfg item se L))))
              else m0"
    from False Cons.prems have "fst (buildRootSlotLoop cfg se L rest ?m) i = Some s"
      by (simp add: split_beta Let_def)
    from Cons.IH [OF this] show ?thesis
      by (auto split: if_splits)
  qed
qed

text \<open>An entry of the map of root slots is the lower-cased root slot that the trace gives
  for a record of that id.\<close>

lemma buildRootSlotMap_entry:
  "fst (buildRootSlotMap cfg its se L) i = Some s \<Longrightarrow>
   \<exists>item \<in> set its. item_id item = i \<and> truthy (fst (traceRootSlot cfg item se L)) \<and>
      s = toLowerCase (the (fst (traceRootSlot cfg item se L)))"
  using buildRootSlotLoop_entry [of cfg se L its Map.empty i s]
  by (simp add: buildRootSlotMap_def)


lemma toLowerCase_empty: "toLowerCase s = [] \<longleftrightarrow> s = []"
  by (simp add: toLowerCase_def)

lemma truthy_lower: "truthy (Some (toLowerCase s)) = truthy (Some s)"
  by (simp add: truthy_def toLowerCase_empty)

lemma buildRootSlotLoop_other:
  "i \<notin> item_id ` set its \<Longrightarrow> fst (buildRootSlotLoop cfg se L its m0) i = m0 i"
  by (induction its arbitrary: m0) (auto simp: split_beta Let_def)

lemma buildRootSlotLoop_lookup:
  "distinct (map item_id its) \<Longrightarrow> x \<in> set its \<Longrightarrow> item_id x \<noteq> [] \<Longrightarrow>
   fst (buildRootSlotLoop cfg se L its m0) (item_id x) =
     (if truthy (fst (traceRootSlot cfg x se L))
      then Some (toLowerCase (the (fst (traceRootSlot cfg x se L))))
      else m0 (item_id x))"
proof (induction its arbitrary: m0)
  case Nil
  then show ?case by simp
next
  case (Cons item rest)
  show ?case
  proof (cases "x = item")
    case True
    with Cons.prems have "item_id x \<notin> item_id ` set rest" by auto
    from buildRootSlotLoop_other [OF this] True Cons.prems(3) show ?thesis
      by (simp add: split_beta Let_def)
  next
    case False
    with Cons.prems have x: "x \<in> set rest" and d: "distinct (map item_id rest)"
      and ne: "item_id item \<noteq> item_id x"
      by auto
    show ?thesis
      using Cons.IH [OF d x Cons.prems(3)] ne
      by (simp add: split_beta Let_def)
  qed
qed

text \<open>When the ids of the snapshot are distinct, the map of root slots holds for each record
  with an id the lower-cased root slot that the trace resolves for it, and no entry when the
  trace resolves none.\<close>

lemma snapshotRootSlots_lookup:
  assumes "distinct (map item_id snap)" and "x \<in> set snap" and "item_id x \<noteq> []"
  shows "snapshotRootSlots cfg snap se (item_id x) =
           (if truthy (resolvedRootSlot cfg snap se x)
            then Some (toLowerCase (the (resolvedRootSlot cfg snap se x)))
            else None)"
  using buildRootSlotLoop_lookup [OF assms, of cfg se "buildItemLookup snap" Map.empty]
  by (simp add: snapshotRootSlots_def resolvedRootSlot_def buildRootSlotMap_def)

lemma nonManagedSlot_resolved:
  assumes "distinct (map item_id snap)" and "x \<in> set snap" and "item_id x \<noteq> []"
  shows "nonManagedSlot inc (snapshotRootSlots cfg snap se) x \<longleftrightarrow>
           truthy (resolvedRootSlot cfg snap se x) \<and> inc \<noteq> {} \<and>
           toLowerCase (the (resolvedRootSlot cfg snap se x)) \<notin> inc"
proof (cases "truthy (resolvedRootSlot cfg snap se x)")
  case True
  then have "truthy (Some (toLowerCase (the (resolvedRootSlot cfg snap se x))))"
    by (cases "resolvedRootSlot cfg snap se x") (simp_all add: truthy_def toLowerCase_empty)
  with True show ?thesis
    unfolding nonManagedSlot_def snapshotRootSlots_lookup [OF assms] by simp
next
  case False
  then show ?thesis
    unfolding nonManagedSlot_def snapshotRootSlots_lookup [OF assms] by (simp add: truthy_def)
qed

text \<open>Every record that a completed run has appended carries the id of a snapshot item that
  passed the field checks and the slot check.\<close>

lemma appendedFrom_Cons: "appendedFrom inc m xs i \<Longrightarrow> appendedFrom inc m (x # xs) i"
  by (auto simp: appendedFrom_def)

lemma appendedFrom_head:
  "item_id x = item_id i \<Longrightarrow> passesFieldChecks x \<Longrightarrow> \<not> nonManagedSlot inc m x \<Longrightarrow>
   appendedFrom inc m (x # xs) i"
  by (auto simp: appendedFrom_def)

lemma addLoop_appended:
  "addLoop pe se inc m xs st = Inr st' \<Longrightarrow>
   \<exists>app. inventoryItems st' = inventoryItems st @ app \<and>
         (\<forall>i \<in> set app. appendedFrom inc m xs i)"
proof (induction xs arbitrary: st)
  case Nil
  then show ?case by simp
next
  case (Cons x xs)
  then obtain mid where mid: "addSnapshotItem pe se inc m x st = Inr mid"
    and rest: "addLoop pe se inc m xs mid = Inr st'"
    by (auto split: sum.splits)
  from Cons.IH [OF rest] obtain app where app: "inventoryItems st' = inventoryItems mid @ app"
    and from_rest: "\<forall>i \<in> set app. appendedFrom inc m xs i"
    by blast
  from from_rest have later: "\<forall>i \<in> set app. appendedFrom inc m (x # xs) i"
    by (blast intro: appendedFrom_Cons)
  from mid show ?case
  proof (cases rule: addSnapshotItem_cases)
    case skipped
    with app later show ?thesis by simp
  next
    case nonManaged
    with app later show ?thesis by simp
  next
    case duplicate
    with app later show ?thesis by simp
  next
    case (appended n)
    then have "appendedFrom inc m (x # xs) n"
      by (intro appendedFrom_head) (simp_all add: reachesDuplicateCheck_def)
    with later have "\<forall>i \<in> set (n # app). appendedFrom inc m (x # xs) i"
      by simp
    moreover from appended app have "inventoryItems st' = inventoryItems st @ (n # app)"
      by simp
    ultimately show ?thesis by blast
  qed
qed


subsection \<open>Concrete runs of the addition loop\<close>

lemma more_fields:
  "item_id restoredW = ''W''" "item_tpl restoredW = ''weapon''"
  "parentId restoredW = Some ''E2''" "slotId restoredW = Some ''Holster''"
  "item_id snapQ = ''Q''" "item_tpl snapQ = ''junk''" "parentId snapQ = Some ''E''"
  "slotId snapQ = Some ''Pockets''" "upd snapQ = None" "location snapQ = None"
  "item_id strayEquipment = ''P''" "item_tpl strayEquipment = EQUIPMENT_TEMPLATE_ID"
  "parentId strayEquipment = Some ''E''" "slotId strayEquipment = Some ''Pockets''"
  "''junk'' \<noteq> EQUIPMENT_TEMPLATE_ID"
  by (simp_all add: restoredW_def snapQ_def strayEquipment_def snapW_def mkItem_def
      EQUIPMENT_TEMPLATE_ID_def)

lemma initial_add_state:
  "addSnapshotItems ivt [] pe se inc m existing =
     Inr \<lparr>inventoryItems = ivt, existingItemIds = existing, added = 0, duplicates = 0,
          nonManaged = 0, addWarnings = []\<rparr>"
  by (simp add: addSnapshotItems_def)

lemma dup_existing: "buildExistingItemIds [invE2, restoredW] = {''W'', ''E2''}"
  by (simp add: buildExistingItemIds_def item_fields more_fields)

lemma dup_prefix:
  "addSnapshotItems [invE2, restoredW] [snapE] ''E2'' (Some ''E'') {''holster''}
     [''W'' \<mapsto> ''holster''] {''W'', ''E2''} =
   Inr \<lparr>inventoryItems = [invE2, restoredW], existingItemIds = {''W'', ''E2''}, added = 0,
        duplicates = 0, nonManaged = 0, addWarnings = []\<rparr>"
  by (simp add: addSnapshotItems_def addSnapshotItem_def item_fields)

lemma dup_run:
  "addSnapshotItems [invE2, restoredW] ([snapE] @ snapW # []) ''E2'' (Some ''E'') {''holster''}
     [''W'' \<mapsto> ''holster''] {''W'', ''E2''} =
   Inr \<lparr>inventoryItems = [invE2, restoredW], existingItemIds = {''W'', ''E2''}, added = 0,
        duplicates = 1, nonManaged = 0, addWarnings = []\<rparr>"
  by (simp add: addSnapshotItems_def addSnapshotItem_def item_fields tpl_not_equipment truthy_def)

lemma nested_fields:
  "item_id snapM = ''M''" "item_tpl snapM = ''magazine''" "parentId snapM = Some ''W''"
  "slotId snapM = Some ''mod_magazine''" "upd snapM = None" "location snapM = None"
  "item_id snapN = ''N''" "item_tpl snapN = ''round''" "parentId snapN = Some ''Q''"
  "slotId snapN = Some ''main''" "upd snapN = None" "location snapN = None"
  "''magazine'' \<noteq> EQUIPMENT_TEMPLATE_ID" "''round'' \<noteq> EQUIPMENT_TEMPLATE_ID"
  by (simp_all add: snapM_def snapN_def mkItem_def EQUIPMENT_TEMPLATE_ID_def)

lemma nested_lookup:
  "buildItemLookup [snapE, snapW, snapM, snapQ, snapN] ''W'' = Some snapW"
  "buildItemLookup [snapE, snapW, snapM, snapQ, snapN] ''Q'' = Some snapQ"
  by (simp_all add: buildItemLookup_def item_fields more_fields nested_fields)

lemma nested_traces:
  "traceRootSlot DEFAULT_CONFIG snapQ (Some ''E'') L = (Some ''Pockets'', [])"
  "traceRootSlot DEFAULT_CONFIG snapM (Some ''E'')
     (buildItemLookup [snapE, snapW, snapM, snapQ, snapN]) = (Some ''Holster'', [])"
  "traceRootSlot DEFAULT_CONFIG snapN (Some ''E'')
     (buildItemLookup [snapE, snapW, snapM, snapQ, snapN]) = (Some ''Pockets'', [])"
  by (simp_all add: traceRootSlot_def default_config_simps traceLoop_found traceLoop_next
      item_fields more_fields nested_fields truthy_def nested_lookup)

lemma nested_resolved:
  "resolvedRootSlot DEFAULT_CONFIG nestedSnapshotItems (Some ''E'') snapM = Some ''Holster''"
  "resolvedRootSlot DEFAULT_CONFIG nestedSnapshotItems (Some ''E'') snapN = Some ''Pockets''"
  by (simp_all add: resolvedRootSlot_def nestedSnapshotItems_def nested_traces)

lemma nested_rootSlots:
  "snapshotRootSlots DEFAULT_CONFIG nestedSnapshotItems (Some ''E'') =
     [''W'' \<mapsto> ''holster'', ''M'' \<mapsto> ''holster'', ''Q'' \<mapsto> ''pockets'', ''N'' \<mapsto> ''pockets'']"
  by (simp add: snapshotRootSlots_def nestedSnapshotItems_def buildRootSlotMap_def run_traces
      nested_traces item_fields more_fields nested_fields truthy_def string_eval)

lemma nested_create:
  "createItemFromSnapshot snapM ''E2'' (Some ''E'') = Inr snapM"
  by (simp add: createItemFromSnapshot_def snapM_def mkItem_def deepCloneItemUpd_None
      bindE_simps truthy_def copyLocation_def)

lemma nested_runs:
  "addSnapshotItems [invE2] [snapE, snapW] ''E2'' (Some ''E'') {''holster''}
     [''W'' \<mapsto> ''holster'', ''M'' \<mapsto> ''holster'', ''Q'' \<mapsto> ''pockets'', ''N'' \<mapsto> ''pockets'']
     {''E2''} =
   Inr \<lparr>inventoryItems = [invE2, restoredW], existingItemIds = {''W'', ''E2''}, added = 1,
        duplicates = 0, nonManaged = 0, addWarnings = []\<rparr>"
  "addSnapshotItems [invE2] [snapE, snapW, snapM, snapQ] ''E2'' (Some ''E'') {''holster''}
     [''W'' \<mapsto> ''holster'', ''M'' \<mapsto> ''holster'', ''Q'' \<mapsto> ''pockets'', ''N'' \<mapsto> ''pockets'']
     {''E2''} =
   Inr \<lparr>inventoryItems = [invE2, restoredW, snapM], existingItemIds = {''M'', ''W'', ''E2''},
        added = 2, duplicates = 0, nonManaged = 1, addWarnings = []\<rparr>"
  "addSnapshotItems [invE2] [snapE, snapW, snapM, snapQ, snapN] ''E2'' (Some ''E'') {''holster''}
     [''W'' \<mapsto> ''holster'', ''M'' \<mapsto> ''holster'', ''Q'' \<mapsto> ''pockets'', ''N'' \<mapsto> ''pockets'']
     {''E2''} =
   Inr \<lparr>inventoryItems = [invE2, restoredW, snapM], existingItemIds = {''M'', ''W'', ''E2''},
        added = 2, duplicates = 0, nonManaged = 2, addWarnings = []\<rparr>"
  by (simp_all add: addSnapshotItems_def addSnapshotItem_def item_fields more_fields nested_fields
      tpl_not_equipment truthy_def run_create nested_create bindE_simps)

lemma stray_traces:
  "traceRootSlot DEFAULT_CONFIG strayEquipment (Some ''E'') L = (Some ''Pockets'', [])"
  by (simp add: traceRootSlot_def default_config_simps traceLoop_found more_fields)

lemma stray_rootSlots:
  "snapshotRootSlots DEFAULT_CONFIG [snapE, strayEquipment] (Some ''E'') = [''P'' \<mapsto> ''pockets'']"
  by (simp add: snapshotRootSlots_def buildRootSlotMap_def run_traces stray_traces item_fields
      more_fields truthy_def string_eval)

text \<open>
  Claim C3, as amended. In a run of \<^verbatim>\<open>addSnapshotItems\<close> that completes, started with
  the set of existing ids that \<^verbatim>\<open>restoreFromFile\<close> builds, a snapshot record whose id
  is in the collection when the loop reaches it is not appended, and the collection ends
  with as many records of that id as it had then. The record is counted in
  \<^verbatim>\<open>duplicatesSkipped\<close> when it reaches the duplicate check, that is when it is not the
  equipment container, has an \<^verbatim>\<open>_id\<close> and a \<^verbatim>\<open>_tpl\<close>, and is not skipped for its slot;
  otherwise the count of duplicates is left as it is.
\<close>

theorem existing_id_is_never_appended:
  assumes "addSnapshotItems ivt (pre @ x # post) pe se inc m (buildExistingItemIds ivt) = Inr final"
  shows "\<exists>st st'.
           addSnapshotItems ivt pre pe se inc m (buildExistingItemIds ivt) = Inr st \<and>
           addSnapshotItem pe se inc m x st = Inr st' \<and>
           (item_id x \<in> item_id ` set (inventoryItems st) \<longrightarrow>
              inventoryItems st' = inventoryItems st \<and>
              countId (item_id x) (inventoryItems final) = countId (item_id x) (inventoryItems st) \<and>
              duplicates st' =
                duplicates st + (if reachesDuplicateCheck inc m x then 1 else 0) \<and>
              duplicates st' \<le> duplicates final)"
proof -
  let ?st0 = "\<lparr>inventoryItems = ivt, existingItemIds = buildExistingItemIds ivt, added = 0,
      duplicates = 0, nonManaged = 0, addWarnings = []\<rparr>"
  from assms obtain st st' where pre: "addLoop pe se inc m pre ?st0 = Inr st"
    and step: "addSnapshotItem pe se inc m x st = Inr st'"
    and post: "addLoop pe se inc m post st' = Inr final"
    unfolding addSnapshotItems_def by (rule addLoop_split)
  have covered: "idsCovered st"
    using addLoop_covered [OF pre initial_covered] .
  have "inventoryItems st' = inventoryItems st \<and>
        countId (item_id x) (inventoryItems final) = countId (item_id x) (inventoryItems st) \<and>
        duplicates st' = duplicates st + (if reachesDuplicateCheck inc m x then 1 else 0) \<and>
        duplicates st' \<le> duplicates final"
    if present: "item_id x \<in> item_id ` set (inventoryItems st)"
  proof -
    have known: "item_id x \<in> existingItemIds st \<or> item_id x = []"
      using present covered by (auto simp: idsCovered_def)
    have same: "inventoryItems st' = inventoryItems st \<and>
        duplicates st' = duplicates st + (if reachesDuplicateCheck inc m x then 1 else 0)"
      using step
    proof (cases rule: addSnapshotItem_cases)
      case (appended n)
      with known show ?thesis
        by (auto simp: reachesDuplicateCheck_def passesFieldChecks_def)
    qed (auto simp: reachesDuplicateCheck_def)
    from addSnapshotItem_count [OF step known]
    have "countId (item_id x) (inventoryItems st') = countId (item_id x) (inventoryItems st)"
      and "item_id x \<in> existingItemIds st' \<or> item_id x = []"
      by simp_all
    with addLoop_count [OF post, of "item_id x"]
    have "countId (item_id x) (inventoryItems final) = countId (item_id x) (inventoryItems st)"
      by simp
    with same addLoop_counters [OF post] show ?thesis by simp
  qed
  with pre step show ?thesis
    unfolding addSnapshotItems_def by blast
qed

theorem existing_id_is_never_appended_witness:
  "\<exists>st st'.
     addSnapshotItems [invE2, restoredW] [snapE] ''E2'' (Some ''E'') {''holster''}
       [''W'' \<mapsto> ''holster''] (buildExistingItemIds [invE2, restoredW]) = Inr st \<and>
     addSnapshotItem ''E2'' (Some ''E'') {''holster''} [''W'' \<mapsto> ''holster''] snapW st = Inr st' \<and>
     item_id snapW \<in> item_id ` set (inventoryItems st) \<and>
     inventoryItems st' = inventoryItems st \<and>
     countId (item_id snapW) [invE2, restoredW] = countId (item_id snapW) (inventoryItems st) \<and>
     duplicates st' = duplicates st + 1 \<and>
     duplicates st' \<le> 1"
proof -
  have run: "addSnapshotItems [invE2, restoredW] ([snapE] @ snapW # []) ''E2'' (Some ''E'')
      {''holster''} [''W'' \<mapsto> ''holster''] (buildExistingItemIds [invE2, restoredW]) =
      Inr \<lparr>inventoryItems = [invE2, restoredW], existingItemIds = {''W'', ''E2''}, added = 0,
        duplicates = 1, nonManaged = 0, addWarnings = []\<rparr>"
    unfolding dup_existing by (rule dup_run)
  from existing_id_is_never_appended [OF run]
  obtain st st' where
    pre: "addSnapshotItems [invE2, restoredW] [snapE] ''E2'' (Some ''E'') {''holster''}
       [''W'' \<mapsto> ''holster''] (buildExistingItemIds [invE2, restoredW]) = Inr st"
    and step: "addSnapshotItem ''E2'' (Some ''E'') {''holster''} [''W'' \<mapsto> ''holster''] snapW st
       = Inr st'"
    and imp: "item_id snapW \<in> item_id ` set (inventoryItems st) \<longrightarrow>
              inventoryItems st' = inventoryItems st \<and>
              countId (item_id snapW)
                (inventoryItems \<lparr>inventoryItems = [invE2, restoredW],
                   existingItemIds = {''W'', ''E2''}, added = 0,
                   duplicates = 1, nonManaged = 0, addWarnings = []\<rparr>) =
                countId (item_id snapW) (inventoryItems st) \<and>
              duplicates st' =
                duplicates st +
                  (if reachesDuplicateCheck {''holster''} [''W'' \<mapsto> ''holster''] snapW
                   then 1 else 0) \<and>
              duplicates st' \<le> duplicates \<lparr>inventoryItems = [invE2, restoredW],
                   existingItemIds = {''W'', ''E2''}, added = 0,
                   duplicates = 1, nonManaged = 0, addWarnings = []\<rparr>"
    by blast
  from pre have st: "st = \<lparr>inventoryItems = [invE2, restoredW], existingItemIds = {''W'', ''E2''},
      added = 0, duplicates = 0, nonManaged = 0, addWarnings = []\<rparr>"
    unfolding dup_existing dup_prefix by simp
  have present: "item_id snapW \<in> item_id ` set (inventoryItems st)"
    by (simp add: st item_fields more_fields)
  have reach: "reachesDuplicateCheck {''holster''} [''W'' \<mapsto> ''holster''] snapW"
    by (simp add: reachesDuplicateCheck_def passesFieldChecks_def nonManagedSlot_def item_fields
        tpl_not_equipment truthy_def)
  from imp present reach pre step show ?thesis
    by (intro exI [of _ st] exI [of _ st']) simp
qed

text \<open>
  Claim C3 as stated fails: the equipment container of the snapshot has the id of the
  equipment container of the inventory (the snapshot was taken from the same profile).
  The record is skipped by the equipment check, which comes first, and is not counted in
  \<^verbatim>\<open>duplicatesSkipped\<close>.
\<close>

theorem equipment_container_not_counted_counterexample:
  "item_id invE2 \<in> item_id ` set [invE2] \<and>
   addSnapshotItems [invE2] [invE2] ''E2'' (Some ''E2'') {''holster''} Map.empty
     (buildExistingItemIds [invE2]) =
   Inr \<lparr>inventoryItems = [invE2], existingItemIds = {''E2''}, added = 0, duplicates = 0,
        nonManaged = 0, addWarnings = []\<rparr>"
  by (simp add: addSnapshotItems_def addSnapshotItem_def item_fields buildExistingItemIds_def)

text \<open>
  Claim C5, as amended. In a run of \<^verbatim>\<open>addSnapshotItems\<close> that completes, with a non-empty
  \<^verbatim>\<open>includedSlots\<close>, on the items of a snapshot whose ids are distinct and with the map of
  root slots that \<^verbatim>\<open>buildRootSlotMap\<close> builds for these items: a snapshot record that is
  appended has no root slot that \<^verbatim>\<open>traceRootSlot\<close> resolves, or its resolved root slot,
  lower-cased, is in \<^verbatim>\<open>includedSlots\<close>, and every record that the run has appended has the
  id of such a snapshot record; a snapshot record whose resolved root slot is known and,
  lower-cased, not in \<^verbatim>\<open>includedSlots\<close> is not appended, and it is counted in
  \<^verbatim>\<open>nonManagedSkipped\<close> when it is not the equipment container and has an \<^verbatim>\<open>_id\<close> and a
  \<^verbatim>\<open>_tpl\<close>; otherwise it is skipped without being counted.
\<close>

theorem only_included_slots_are_added:
  assumes "inc \<noteq> {}"
    and "distinct (map item_id (pre @ x # post))"
    and "addSnapshotItems ivt (pre @ x # post) pe se inc
           (snapshotRootSlots cfg (pre @ x # post) se) existing = Inr final"
  shows "\<exists>st st'.
           addSnapshotItems ivt pre pe se inc
             (snapshotRootSlots cfg (pre @ x # post) se) existing = Inr st \<and>
           addSnapshotItem pe se inc (snapshotRootSlots cfg (pre @ x # post) se) x st = Inr st' \<and>
           (inventoryItems st' \<noteq> inventoryItems st \<longrightarrow>
              \<not> truthy (resolvedRootSlot cfg (pre @ x # post) se x) \<or>
              toLowerCase (the (resolvedRootSlot cfg (pre @ x # post) se x)) \<in> inc) \<and>
           (truthy (resolvedRootSlot cfg (pre @ x # post) se x) \<and>
            toLowerCase (the (resolvedRootSlot cfg (pre @ x # post) se x)) \<notin> inc \<longrightarrow>
              inventoryItems st' = inventoryItems st \<and>
              nonManaged st' = nonManaged st + (if passesFieldChecks x then 1 else 0) \<and>
              nonManaged st' \<le> nonManaged final) \<and>
           (\<forall>i \<in> set (drop (length ivt) (inventoryItems final)).
              \<exists>y \<in> set (pre @ x # post). item_id y = item_id i \<and>
                (\<not> truthy (resolvedRootSlot cfg (pre @ x # post) se y) \<or>
                 toLowerCase (the (resolvedRootSlot cfg (pre @ x # post) se y)) \<in> inc))"
proof -
  let ?snap = "pre @ x # post"
  let ?m = "snapshotRootSlots cfg ?snap se"
  let ?st0 = "\<lparr>inventoryItems = ivt, existingItemIds = existing, added = 0,
      duplicates = 0, nonManaged = 0, addWarnings = []\<rparr>"
  have slot: "nonManagedSlot inc ?m y \<longleftrightarrow>
      truthy (resolvedRootSlot cfg ?snap se y) \<and>
      toLowerCase (the (resolvedRootSlot cfg ?snap se y)) \<notin> inc"
    if "y \<in> set ?snap" and "passesFieldChecks y" for y
    using nonManagedSlot_resolved [OF assms(2) that(1), of inc cfg se] that(2) assms(1)
    by (simp add: passesFieldChecks_def)
  have xin: "x \<in> set ?snap" by simp
  from assms(3) have full: "addLoop pe se inc ?m ?snap ?st0 = Inr final"
    by (simp add: addSnapshotItems_def)
  from full obtain st st' where pre: "addLoop pe se inc ?m pre ?st0 = Inr st"
    and step: "addSnapshotItem pe se inc ?m x st = Inr st'"
    and post: "addLoop pe se inc ?m post st' = Inr final"
    by (rule addLoop_split)
  have a: "inventoryItems st' \<noteq> inventoryItems st \<longrightarrow>
             \<not> truthy (resolvedRootSlot cfg ?snap se x) \<or>
             toLowerCase (the (resolvedRootSlot cfg ?snap se x)) \<in> inc"
    using step
  proof (cases rule: addSnapshotItem_cases)
    case (appended n)
    then have "passesFieldChecks x" "\<not> nonManagedSlot inc ?m x"
      by (simp_all add: reachesDuplicateCheck_def)
    with slot [OF xin] show ?thesis by blast
  qed simp_all
  have b: "truthy (resolvedRootSlot cfg ?snap se x) \<and>
           toLowerCase (the (resolvedRootSlot cfg ?snap se x)) \<notin> inc \<longrightarrow>
             inventoryItems st' = inventoryItems st \<and>
             nonManaged st' = nonManaged st + (if passesFieldChecks x then 1 else 0) \<and>
             nonManaged st' \<le> nonManaged final"
  proof
    assume known: "truthy (resolvedRootSlot cfg ?snap se x) \<and>
           toLowerCase (the (resolvedRootSlot cfg ?snap se x)) \<notin> inc"
    have le: "nonManaged st' \<le> nonManaged final"
      using addLoop_counters [OF post] by simp
    have reach: False if "reachesDuplicateCheck inc ?m x"
      using that slot [OF xin] known by (simp add: reachesDuplicateCheck_def)
    from step show "inventoryItems st' = inventoryItems st \<and>
             nonManaged st' = nonManaged st + (if passesFieldChecks x then 1 else 0) \<and>
             nonManaged st' \<le> nonManaged final"
    proof (cases rule: addSnapshotItem_cases)
      case skipped
      with le show ?thesis by simp
    next
      case nonManaged
      with le show ?thesis by simp
    next
      case duplicate
      with reach show ?thesis by simp
    next
      case (appended n)
      with reach show ?thesis by simp
    qed
  qed
  from addLoop_appended [OF full] obtain app where
    app: "inventoryItems final = ivt @ app" and
    from_snap: "\<forall>i \<in> set app. appendedFrom inc ?m ?snap i"
    by auto
  have c: "\<forall>i \<in> set (drop (length ivt) (inventoryItems final)).
              \<exists>y \<in> set ?snap. item_id y = item_id i \<and>
                (\<not> truthy (resolvedRootSlot cfg ?snap se y) \<or>
                 toLowerCase (the (resolvedRootSlot cfg ?snap se y)) \<in> inc)"
  proof
    fix i assume "i \<in> set (drop (length ivt) (inventoryItems final))"
    with app from_snap have "appendedFrom inc ?m ?snap i" by simp
    then obtain y where y: "y \<in> set ?snap" "item_id y = item_id i" "passesFieldChecks y"
      "\<not> nonManagedSlot inc ?m y"
      unfolding appendedFrom_def by blast
    from slot [OF y(1) y(3)] y(4) have
      "\<not> truthy (resolvedRootSlot cfg ?snap se y) \<or>
       toLowerCase (the (resolvedRootSlot cfg ?snap se y)) \<in> inc"
      by blast
    with y(1,2) show "\<exists>y \<in> set ?snap. item_id y = item_id i \<and>
                (\<not> truthy (resolvedRootSlot cfg ?snap se y) \<or>
                 toLowerCase (the (resolvedRootSlot cfg ?snap se y)) \<in> inc)"
      by blast
  qed
  from pre step a b c show ?thesis
    unfolding addSnapshotItems_def by blast
qed

theorem only_included_slots_are_added_witness:
  "(\<exists>st st'.
      addSnapshotItems [invE2] [snapE, snapW] ''E2'' (Some ''E'') {''holster''}
        (snapshotRootSlots DEFAULT_CONFIG nestedSnapshotItems (Some ''E'')) {''E2''} = Inr st \<and>
      addSnapshotItem ''E2'' (Some ''E'') {''holster''}
        (snapshotRootSlots DEFAULT_CONFIG nestedSnapshotItems (Some ''E'')) snapM st = Inr st' \<and>
      inventoryItems st' \<noteq> inventoryItems st \<and>
      resolvedRootSlot DEFAULT_CONFIG nestedSnapshotItems (Some ''E'') snapM = Some ''Holster'' \<and>
      toLowerCase ''Holster'' \<in> {''holster''}) \<and>
   (\<exists>st st'.
      addSnapshotItems [invE2] [snapE, snapW, snapM, snapQ] ''E2'' (Some ''E'') {''holster''}
        (snapshotRootSlots DEFAULT_CONFIG nestedSnapshotItems (Some ''E'')) {''E2''} = Inr st \<and>
      addSnapshotItem ''E2'' (Some ''E'') {''holster''}
        (snapshotRootSlots DEFAULT_CONFIG nestedSnapshotItems (Some ''E'')) snapN st = Inr st' \<and>
      resolvedRootSlot DEFAULT_CONFIG nestedSnapshotItems (Some ''E'') snapN = Some ''Pockets'' \<and>
      toLowerCase ''Pockets'' \<notin> {''holster''} \<and>
      inventoryItems st' = inventoryItems st \<and>
      nonManaged st' = nonManaged st + 1 \<and> nonManaged st' \<le> 2)"
proof -
  let ?m = "snapshotRootSlots DEFAULT_CONFIG nestedSnapshotItems (Some ''E'')"
  let ?final = "\<lparr>inventoryItems = [invE2, restoredW, snapM],
      existingItemIds = {''M'', ''W'', ''E2''}, added = 2, duplicates = 0, nonManaged = 2,
      addWarnings = []\<rparr>"
  have inc: "{''holster''} \<noteq> ({} :: string set)" by simp
  have split1: "[snapE, snapW] @ snapM # [snapQ, snapN] = nestedSnapshotItems"
    and split2: "[snapE, snapW, snapM, snapQ] @ snapN # [] = nestedSnapshotItems"
    by (simp_all add: nestedSnapshotItems_def)
  have ids: "distinct (map item_id nestedSnapshotItems)"
    by (simp add: nestedSnapshotItems_def item_fields more_fields nested_fields)
  have run: "addSnapshotItems [invE2] nestedSnapshotItems ''E2'' (Some ''E'') {''holster''} ?m
      {''E2''} = Inr ?final"
    unfolding nested_rootSlots by (simp add: nestedSnapshotItems_def nested_runs)
  have "\<exists>st st'.
      addSnapshotItems [invE2] [snapE, snapW] ''E2'' (Some ''E'') {''holster''} ?m {''E2''}
        = Inr st \<and>
      addSnapshotItem ''E2'' (Some ''E'') {''holster''} ?m snapM st = Inr st' \<and>
      inventoryItems st' \<noteq> inventoryItems st \<and>
      resolvedRootSlot DEFAULT_CONFIG nestedSnapshotItems (Some ''E'') snapM = Some ''Holster'' \<and>
      toLowerCase ''Holster'' \<in> {''holster''}"
  proof -
    from only_included_slots_are_added [where pre = "[snapE, snapW]" and x = snapM
        and post = "[snapQ, snapN]" and cfg = DEFAULT_CONFIG, unfolded split1, OF inc ids run]
    obtain st st' where
      pre: "addSnapshotItems [invE2] [snapE, snapW] ''E2'' (Some ''E'') {''holster''} ?m {''E2''}
          = Inr st"
      and step: "addSnapshotItem ''E2'' (Some ''E'') {''holster''} ?m snapM st = Inr st'"
      and imp: "inventoryItems st' \<noteq> inventoryItems st \<longrightarrow>
          \<not> truthy (resolvedRootSlot DEFAULT_CONFIG nestedSnapshotItems (Some ''E'') snapM) \<or>
          toLowerCase (the (resolvedRootSlot DEFAULT_CONFIG nestedSnapshotItems (Some ''E'') snapM))
            \<in> {''holster''}"
      by blast
    from pre have st: "st = \<lparr>inventoryItems = [invE2, restoredW],
        existingItemIds = {''W'', ''E2''}, added = 1, duplicates = 0, nonManaged = 0,
        addWarnings = []\<rparr>"
      unfolding nested_rootSlots nested_runs(1) by simp
    from step have "inventoryItems st' = [invE2, restoredW, snapM]"
      unfolding st nested_rootSlots
      by (simp add: addSnapshotItem_def nested_fields truthy_def nested_create bindE_simps
          split: if_splits) auto
    then have changed: "inventoryItems st' \<noteq> inventoryItems st"
      by (simp add: st)
    from imp changed have "toLowerCase ''Holster'' \<in> {''holster''}"
      by (simp add: nested_resolved truthy_def)
    with changed pre step show ?thesis
      by (intro exI [of _ st] exI [of _ st']) (simp add: nested_resolved)
  qed
  moreover have "\<exists>st st'.
      addSnapshotItems [invE2] [snapE, snapW, snapM, snapQ] ''E2'' (Some ''E'') {''holster''} ?m
        {''E2''} = Inr st \<and>
      addSnapshotItem ''E2'' (Some ''E'') {''holster''} ?m snapN st = Inr st' \<and>
      resolvedRootSlot DEFAULT_CONFIG nestedSnapshotItems (Some ''E'') snapN = Some ''Pockets'' \<and>
      toLowerCase ''Pockets'' \<notin> {''holster''} \<and>
      inventoryItems st' = inventoryItems st \<and>
      nonManaged st' = nonManaged st + 1 \<and> nonManaged st' \<le> 2"
  proof -
    from only_included_slots_are_added [where pre = "[snapE, snapW, snapM, snapQ]" and x = snapN
        and post = "[]" and cfg = DEFAULT_CONFIG, unfolded split2, OF inc ids run]
    obtain st st' where
      pre: "addSnapshotItems [invE2] [snapE, snapW, snapM, snapQ] ''E2'' (Some ''E'') {''holster''}
          ?m {''E2''} = Inr st"
      and step: "addSnapshotItem ''E2'' (Some ''E'') {''holster''} ?m snapN st = Inr st'"
      and imp: "truthy (resolvedRootSlot DEFAULT_CONFIG nestedSnapshotItems (Some ''E'') snapN) \<and>
          toLowerCase (the (resolvedRootSlot DEFAULT_CONFIG nestedSnapshotItems (Some ''E'') snapN))
            \<notin> {''holster''} \<longrightarrow>
          inventoryItems st' = inventoryItems st \<and>
          nonManaged st' = nonManaged st + (if passesFieldChecks snapN then 1 else 0) \<and>
          nonManaged st' \<le> nonManaged ?final"
      by blast
    have low: "toLowerCase ''Pockets'' \<notin> {''holster''}"
      by (simp add: string_eval)
    have fields: "passesFieldChecks snapN"
      by (simp add: passesFieldChecks_def nested_fields)
    from imp low fields have "inventoryItems st' = inventoryItems st \<and>
        nonManaged st' = nonManaged st + 1 \<and> nonManaged st' \<le> 2"
      by (simp add: nested_resolved truthy_def)
    with pre step low show ?thesis
      by (intro exI [of _ st] exI [of _ st']) (simp add: nested_resolved)
  qed
  ultimately show ?thesis by blast
qed

text \<open>
  Claim C5 as stated fails: a record of the snapshot that has the equipment template and
  sits in the pockets resolves to the root slot "Pockets", which lower-cased is not in
  \<^verbatim>\<open>includedSlots\<close>; it is skipped by the equipment check, which comes first, and is not
  counted in \<^verbatim>\<open>nonManagedSkipped\<close>.
\<close>

theorem equipment_template_not_counted_counterexample:
  "resolvedRootSlot DEFAULT_CONFIG [snapE, strayEquipment] (Some ''E'') strayEquipment
     = Some ''Pockets'' \<and>
   snapshotRootSlots DEFAULT_CONFIG [snapE, strayEquipment] (Some ''E'') (item_id strayEquipment)
     = Some ''pockets'' \<and>
   ''pockets'' \<notin> {''holster''} \<and>
   addSnapshotItems [invE2] [snapE, strayEquipment] ''E2'' (Some ''E'') {''holster''}
     (snapshotRootSlots DEFAULT_CONFIG [snapE, strayEquipment] (Some ''E'')) {''E2''} =
   Inr \<lparr>inventoryItems = [invE2], existingItemIds = {''E2''}, added = 0, duplicates = 0,
        nonManaged = 0, addWarnings = []\<rparr>"
  unfolding stray_rootSlots
  by (simp add: resolvedRootSlot_def stray_traces addSnapshotItems_def addSnapshotItem_def
      item_fields more_fields)

lemma pocketsW_fields:
  "item_id pocketsW = ''W''" "item_tpl pocketsW = ''junk''" "parentId pocketsW = Some ''E''"
  "slotId pocketsW = Some ''Pockets''" "upd pocketsW = None" "location pocketsW = None"
  by (simp_all add: pocketsW_def mkItem_def)

lemma pocketsW_trace:
  "traceRootSlot DEFAULT_CONFIG pocketsW (Some ''E'') L = (Some ''Pockets'', [])"
  by (simp add: traceRootSlot_def default_config_simps traceLoop_found pocketsW_fields)

lemma pocketsW_create:
  "createItemFromSnapshot pocketsW ''E2'' (Some ''E'') = Inr (pocketsW\<lparr>parentId := Some ''E2''\<rparr>)"
  by (simp add: createItemFromSnapshot_def pocketsW_def mkItem_def deepCloneItemUpd_None
      bindE_simps truthy_def copyLocation_def)

lemma repeated_rootSlots:
  "snapshotRootSlots DEFAULT_CONFIG [snapE, pocketsW, snapW] (Some ''E'') = [''W'' \<mapsto> ''holster'']"
  by (simp add: snapshotRootSlots_def buildRootSlotMap_def run_traces pocketsW_trace item_fields
      pocketsW_fields truthy_def string_eval)

text \<open>
  The ids of the snapshot have to be distinct: when two records have one id, the map of
  root slots holds the root slot of the later one. Here the first record resolves to
  "Pockets", which is not included, and is appended all the same; the second one, which
  resolves to the included "Holster", is then skipped as a duplicate.
\<close>

lemma repeated_id_takes_last_root_slot:
  "resolvedRootSlot DEFAULT_CONFIG [snapE, pocketsW, snapW] (Some ''E'') pocketsW
     = Some ''Pockets'' \<and>
   resolvedRootSlot DEFAULT_CONFIG [snapE, pocketsW, snapW] (Some ''E'') snapW
     = Some ''Holster'' \<and>
   snapshotRootSlots DEFAULT_CONFIG [snapE, pocketsW, snapW] (Some ''E'') ''W'' = Some ''holster'' \<and>
   addSnapshotItems [invE2] [snapE, pocketsW, snapW] ''E2'' (Some ''E'') {''holster''}
     (snapshotRootSlots DEFAULT_CONFIG [snapE, pocketsW, snapW] (Some ''E'')) {''E2''} =
   Inr \<lparr>inventoryItems = [invE2, pocketsW\<lparr>parentId := Some ''E2''\<rparr>],
        existingItemIds = {''W'', ''E2''}, added = 1, duplicates = 1, nonManaged = 0,
        addWarnings = []\<rparr>"
  unfolding repeated_rootSlots
  by (simp add: resolvedRootSlot_def pocketsW_trace run_traces addSnapshotItems_def
      addSnapshotItem_def item_fields pocketsW_fields more_fields tpl_not_equipment truthy_def
      pocketsW_create bindE_simps)

end
